theory Spec2Isabelle
  imports Complex_Main "HOL-Library.Sublist" "HOL-Library.AList"
begin

section \<open>Text helpers of the Comfy metadata processor\<close>

text \<open>
  The processor lives in \<^verbatim>\<open>src/utils/metadata/comfy.metadata.ts\<close>. JavaScript strings are
  modelled as \<^typ>\<open>string\<close>. The backslash is written \<open>CHR 0x5C\<close>.
\<close>

subsection \<open>Global replacement of a literal pattern\<close>

text \<open>
  \<^verbatim>\<open>str.replace(/\[NaN\]/g, '[]')\<close>: a global regular expression whose pattern is a
  literal text scans from the left, rewrites the leftmost occurrence and resumes behind it.
  The guard \<open>pat \<noteq> []\<close> only keeps the scan total; both patterns of the source are not empty.
\<close>

function replace_all :: "string \<Rightarrow> string \<Rightarrow> string \<Rightarrow> string" where
  "replace_all pat rep [] = []"
| "replace_all pat rep (c # cs) =
     (if pat \<noteq> [] \<and> prefix pat (c # cs)
      then rep @ replace_all pat rep (drop (length pat) (c # cs))
      else c # replace_all pat rep cs)"
  by pat_completeness auto
termination
  by (relation "measure (\<lambda>(pat, rep, s). length s)") (auto simp: neq_Nil_conv)

definition cleanBadJson :: "string \<Rightarrow> string" where
  "cleanBadJson str = replace_all ''[Infinity]'' ''[]'' (replace_all ''[NaN]'' ''[]'' str)"

text \<open>
  The reading of the specification: one scan that rewrites either token where it stands and
  copies every other character.
\<close>

function sanitize_spec :: "string \<Rightarrow> string" where
  "sanitize_spec [] = []"
| "sanitize_spec (c # cs) =
     (if prefix ''[NaN]'' (c # cs) then ''[]'' @ sanitize_spec (drop 5 (c # cs))
      else if prefix ''[Infinity]'' (c # cs) then ''[]'' @ sanitize_spec (drop 10 (c # cs))
      else c # sanitize_spec cs)"
  by pat_completeness auto
termination
  by (relation "measure length") auto

text \<open>A text holds a token when the token starts at some position of it.\<close>

fun occurs :: "string \<Rightarrow> string \<Rightarrow> bool" where
  "occurs pat [] = (pat = [])"
| "occurs pat (c # cs) = (prefix pat (c # cs) \<or> occurs pat cs)"

subsection \<open>File names\<close>

text \<open>
  \<^verbatim>\<open>name.replace(/\\(\\\\)*/g, '/')\<close>: a match is one backslash followed by as many
  pairs of backslashes as there are (the star is greedy); each match becomes one slash.
\<close>

definition bsl :: char where
  "bsl = CHR 0x5C"

function replace_sep :: "string \<Rightarrow> string" where
  "replace_sep [] = []"
| "replace_sep (c # cs) =
     (if c = bsl
      then CHR ''/'' # replace_sep (drop (2 * (length (takeWhile (\<lambda>x. x = bsl) cs) div 2)) cs)
      else c # replace_sep cs)"
  by pat_completeness auto
termination
  by (relation "measure length") auto

text \<open>\<^verbatim>\<open>name.split('/')\<close>: the pieces between the separators; never an empty list.\<close>

fun split :: "char \<Rightarrow> string \<Rightarrow> string list" where
  "split sep [] = [[]]"
| "split sep (c # cs) =
     (if c = sep then [] # split sep cs
      else (case split sep cs of [] \<Rightarrow> [[c]] | p # ps \<Rightarrow> (c # p) # ps))"

text \<open>
  \<^verbatim>\<open>s.replace(/\.[^/.]+$/, '')\<close>: the leftmost position where a dot is followed, up to the
  end of the text, by one or more characters that are neither a slash nor a dot; the text
  is cut there. Without a match the text is returned as it is.
\<close>

fun strip_ext :: "string \<Rightarrow> string" where
  "strip_ext [] = []"
| "strip_ext (c # cs) =
     (if c = CHR ''.'' \<and> cs \<noteq> [] \<and> list_all (\<lambda>x. x \<noteq> CHR ''/'' \<and> x \<noteq> CHR ''.'') cs
      then []
      else c # strip_ext cs)"

definition modelFileName :: "string \<Rightarrow> string" where
  "modelFileName name =
     (let name' = replace_sep name;
          parts = split (CHR ''/'') name'
      in strip_ext (parts ! (length parts - 1)))"

subsection \<open>The capability check\<close>

text \<open>
  \<^verbatim>\<open>exif\<close> is a \<^verbatim>\<open>Record<string, any>\<close> of which the processor reads two fields, each
  a string or absent (\<^verbatim>\<open>undefined\<close>, here \<open>None\<close>).
\<close>

record exif =
  exif_prompt :: "string option"
  exif_workflow :: "string option"

text \<open>JavaScript truthiness of a value that is a string or \<^verbatim>\<open>undefined\<close>.\<close>

fun truthy_str :: "string option \<Rightarrow> bool" where
  "truthy_str None = False"
| "truthy_str (Some s) = (s \<noteq> [])"

text \<open>
  \<^verbatim>\<open>canParse: (exif) => exif.prompt && exif.workflow\<close>: the operator \<^verbatim>\<open>&&\<close> returns its
  left operand when that is falsy and its right operand otherwise.
\<close>

definition canParse :: "exif \<Rightarrow> string option" where
  "canParse e = (if truthy_str (exif_prompt e) then exif_workflow e else exif_prompt e)"

section \<open>The node graph\<close>

text \<open>
  \<^verbatim>\<open>parse\<close> throws where JavaScript throws: \<^verbatim>\<open>JSON.parse\<close> a \<^verbatim>\<open>SyntaxError\<close>, a property read
  on \<^verbatim>\<open>undefined\<close> or a call of something that is no function a \<^verbatim>\<open>TypeError\<close>, a
  recursion deeper than the call stack a \<^verbatim>\<open>RangeError\<close>. A function that may throw returns
  \<open>js_error + 'a\<close>.
\<close>

datatype js_error = SyntaxError | TypeError | RangeError

text \<open>
  A decoded JSON document. The workflow document has the type \<^verbatim>\<open>any\<close> in the source, so it
  is kept as a tree. An object is the list of its entries in the order of its properties.
\<close>

datatype json =
    JNull
  | JBool bool
  | JNum rat
  | JStr string
  | JArr "json list"
  | JObj "(string \<times> json) list"

text \<open>
  The prompt document has the declared type \<^verbatim>\<open>Record<string, ComfyNode>\<close> with
  \<^verbatim>\<open>inputs: Record<string, number | string | Array<string | number> | ComfyNode>\<close>.
  A number is a rational (every finite double is one). A node inside an input is a reference
  to an object of the prompt, which the sweep goes on mutating, so it is modelled as the key
  of that object in the prompt: \<open>VNode id\<close>. \<open>VUndefined\<close> is what a read of a missing
  key yields and what an edge to a missing node is rewritten to.
\<close>

datatype edge_part = EStr string | ENum rat

datatype comfy_value =
    VUndefined
  | VNum rat
  | VStr string
  | VArr "edge_part list"
  | VNode string

type_synonym comfy_inputs = "(string \<times> comfy_value) list"

record ComfyNode =
  inputs :: comfy_inputs
  class_type :: string
  ckpt_hash :: "string option"
  lora_hash :: "string option"

type_synonym comfy_prompt = "(string \<times> ComfyNode) list"

text \<open>
  What the processor takes from the JavaScript platform and from modules of the repository
  that are not part of the metadata processor. None of it is fixed here; every theorem below
  holds whatever these functions are, unless it states a hypothesis about them.
  \<^item> \<open>JSON_parse_prompt\<close>: \<^verbatim>\<open>JSON.parse(text) as Record<string, ComfyNode>\<close>, the decoded
    prompt at its declared type, its nodes in the order of \<^verbatim>\<open>Object.values\<close>; \<open>None\<close> when
    \<^verbatim>\<open>JSON.parse\<close> throws.
  \<^item> \<open>JSON_parse\<close>, \<open>JSON_stringify\<close>: \<^verbatim>\<open>JSON.parse\<close> and \<^verbatim>\<open>JSON.stringify\<close> on trees.
  \<^item> \<open>fromJson\<close>: the helper of \<^verbatim>\<open>utils/json-helpers\<close>, whose code is not available; the
    specification says of it only that it decodes the serialized payload.
  \<^item> \<open>Number_toString\<close>, \<open>String_toNumber\<close>, \<open>parseInt\<close>: the conversions JavaScript applies
    in a property key or a template, in a comparison with a number, and \<^verbatim>\<open>parseInt\<close>;
    \<open>None\<close> is \<^verbatim>\<open>NaN\<close>.
  \<^item> \<open>samplerMap\<close>: the table of \<^verbatim>\<open>server/common/constants\<close>, key and value of each entry.
  \<^item> \<open>stack_limit\<close>: how deep \<open>getPromptText\<close> may recurse before the engine throws.
\<close>

record platform =
  JSON_parse_prompt :: "string \<Rightarrow> comfy_prompt option"
  JSON_parse :: "string \<Rightarrow> json option"
  JSON_stringify :: "json \<Rightarrow> string"
  fromJson :: "string \<Rightarrow> json option"
  Number_toString :: "rat \<Rightarrow> string"
  String_toNumber :: "string \<Rightarrow> rat option"
  parseInt :: "string \<Rightarrow> rat option"
  samplerMap :: "(string \<times> string) list"
  stack_limit :: nat

subsection \<open>Reading values\<close>

definition deref :: "comfy_prompt \<Rightarrow> string \<Rightarrow> ComfyNode option" where
  "deref g i = map_of g i"

text \<open>\<^verbatim>\<open>inputs[key]\<close>: the value of the key, \<^verbatim>\<open>undefined\<close> when the key is missing.\<close>

definition get_prop :: "comfy_inputs \<Rightarrow> string \<Rightarrow> comfy_value" where
  "get_prop ins k = (case map_of ins k of None \<Rightarrow> VUndefined | Some v \<Rightarrow> v)"

text \<open>
  \<^verbatim>\<open>v.inputs\<close> and \<^verbatim>\<open>v.class_type\<close>: a \<^verbatim>\<open>TypeError\<close> on \<^verbatim>\<open>undefined\<close>, the field of the node
  on a node, \<^verbatim>\<open>undefined\<close> (\<open>None\<close>) on a number, a string or an array. A reference to a key
  the prompt does not have is read as \<^verbatim>\<open>undefined\<close> throughout; the sweep creates none.
\<close>

fun get_inputs :: "comfy_prompt \<Rightarrow> comfy_value \<Rightarrow> js_error + comfy_inputs option" where
  "get_inputs g VUndefined = Inl TypeError"
| "get_inputs g (VNode i) =
     (case deref g i of None \<Rightarrow> Inl TypeError | Some n \<Rightarrow> Inr (Some (inputs n)))"
| "get_inputs g v = Inr None"

fun get_class_type :: "comfy_prompt \<Rightarrow> comfy_value \<Rightarrow> js_error + string option" where
  "get_class_type g VUndefined = Inl TypeError"
| "get_class_type g (VNode i) =
     (case deref g i of None \<Rightarrow> Inl TypeError | Some n \<Rightarrow> Inr (Some (class_type n)))"
| "get_class_type g v = Inr None"

text \<open>\<^verbatim>\<open>inputs?.[key]\<close>: \<^verbatim>\<open>undefined\<close> when \<^verbatim>\<open>inputs\<close> itself is \<^verbatim>\<open>undefined\<close>.\<close>

definition opt_prop :: "comfy_inputs option \<Rightarrow> string \<Rightarrow> comfy_value" where
  "opt_prop ins k = (case ins of None \<Rightarrow> VUndefined | Some i \<Rightarrow> get_prop i k)"

text \<open>Truthiness: \<^verbatim>\<open>undefined\<close>, \<^verbatim>\<open>0\<close> and the empty string are falsy.\<close>

fun truthy :: "comfy_prompt \<Rightarrow> comfy_value \<Rightarrow> bool" where
  "truthy g VUndefined = False"
| "truthy g (VNum n) = (n \<noteq> 0)"
| "truthy g (VStr s) = (s \<noteq> [])"
| "truthy g (VArr es) = True"
| "truthy g (VNode i) = (deref g i \<noteq> None)"

text \<open>\<^verbatim>\<open>typeof v === 'string'\<close>.\<close>

fun is_string :: "comfy_value \<Rightarrow> bool" where
  "is_string (VStr s) = True"
| "is_string v = False"

text \<open>
  \<^verbatim>\<open>typeof v.class_type !== 'undefined'\<close> for a truthy \<open>v\<close>: only a node has the field, and
  there it is a string.
\<close>

fun has_class_type :: "comfy_prompt \<Rightarrow> comfy_value \<Rightarrow> bool" where
  "has_class_type g (VNode i) = (deref g i \<noteq> None)"
| "has_class_type g v = False"

text \<open>
  \<^verbatim>\<open>a === b\<close>: numbers and strings by value, objects by identity. Two inputs never share an
  array (\<^verbatim>\<open>JSON.parse\<close> builds one for each position), and two references are the same
  object when they name the same key.
\<close>

fun strict_eq :: "comfy_value \<Rightarrow> comfy_value \<Rightarrow> bool" where
  "strict_eq (VArr a) (VArr b) = False"
| "strict_eq a b = (a = b)"

text \<open>\<^verbatim>\<open>String(v)\<close>, which a template literal and \<^verbatim>\<open>+\<close> with a string apply.\<close>

fun join_parts :: "platform \<Rightarrow> edge_part list \<Rightarrow> string" where
  "join_parts P [] = []"
| "join_parts P [EStr s] = s"
| "join_parts P [ENum n] = Number_toString P n"
| "join_parts P (EStr s # es) = s @ '','' @ join_parts P es"
| "join_parts P (ENum n # es) = Number_toString P n @ '','' @ join_parts P es"

fun to_string :: "platform \<Rightarrow> comfy_value \<Rightarrow> string" where
  "to_string P VUndefined = ''undefined''"
| "to_string P (VNum n) = Number_toString P n"
| "to_string P (VStr s) = s"
| "to_string P (VArr es) = join_parts P es"
| "to_string P (VNode i) = ''[object Object]''"

text \<open>\<^verbatim>\<open>Number(v)\<close>, which a comparison with a number applies; \<open>None\<close> is \<^verbatim>\<open>NaN\<close>.\<close>

fun to_number :: "platform \<Rightarrow> comfy_value \<Rightarrow> rat option" where
  "to_number P VUndefined = None"
| "to_number P (VNum n) = Some n"
| "to_number P (VStr s) = String_toNumber P s"
| "to_number P (VArr es) = String_toNumber P (join_parts P es)"
| "to_number P (VNode i) = None"

text \<open>\<^verbatim>\<open>v == text\<close> with a string on the right.\<close>

fun loose_eq_str :: "platform \<Rightarrow> comfy_value \<Rightarrow> string \<Rightarrow> bool" where
  "loose_eq_str P VUndefined t = False"
| "loose_eq_str P (VNum n) t = (String_toNumber P t = Some n)"
| "loose_eq_str P (VStr s) t = (s = t)"
| "loose_eq_str P (VArr es) t = (join_parts P es = t)"
| "loose_eq_str P (VNode i) t = (''[object Object]'' = t)"

subsection \<open>Prompt text\<close>

text \<open>
  \<^verbatim>\<open>getPromptText(node)\<close>. The first argument bounds the depth of the recursion; when it is
  used up the call throws as the engine does on a stack overflow. The declared result type is
  \<^verbatim>\<open>string\<close>, but \<^verbatim>\<open>text_g as string\<close> returns whatever the input holds.
\<close>

fun getPromptText :: "nat \<Rightarrow> platform \<Rightarrow> comfy_prompt \<Rightarrow> comfy_value \<Rightarrow> js_error + comfy_value" where
  "getPromptText 0 P g node = Inl RangeError"
| "getPromptText (Suc depth) P g node =
     (case get_inputs g node of
        Inl e \<Rightarrow> Inl e
      | Inr ins \<Rightarrow>
          (let text = opt_prop ins ''text'';
               text_g = opt_prop ins ''text_g'';
               text_l = opt_prop ins ''text_l''
           in if truthy g text \<and> is_string text then Inr text
              else if truthy g text \<and> has_class_type g text then getPromptText depth P g text
              else if truthy g text_g then
                (if \<not> truthy g text_l \<or> strict_eq text_l text_g then Inr text_g
                 else Inr (VStr (to_string P text_g @ '', '' @ to_string P text_l)))
              else Inr (VStr [])))"

subsection \<open>The sweep over the nodes\<close>

text \<open>
  \<^verbatim>\<open>if (Array.isArray(value)) node.inputs[key] = prompt[value[0]]\<close>. The key is the first
  element of the array converted to a property key (\<^verbatim>\<open>undefined\<close> for the empty array).
  Keys that name a member of \<^verbatim>\<open>Object.prototype\<close> are not modelled.
\<close>

definition edge_key :: "platform \<Rightarrow> edge_part list \<Rightarrow> string" where
  "edge_key P es =
     (case es of [] \<Rightarrow> ''undefined'' | EStr s # _ \<Rightarrow> s | ENum n # _ \<Rightarrow> Number_toString P n)"

definition resolve :: "platform \<Rightarrow> comfy_prompt \<Rightarrow> comfy_value \<Rightarrow> comfy_value" where
  "resolve P g v =
     (case v of
        VArr es \<Rightarrow> (case deref g (edge_key P es) of None \<Rightarrow> VUndefined | Some _ \<Rightarrow> VNode (edge_key P es))
      | _ \<Rightarrow> v)"

definition resolve_inputs :: "platform \<Rightarrow> comfy_prompt \<Rightarrow> comfy_inputs \<Rightarrow> comfy_inputs" where
  "resolve_inputs P g ins = map (\<lambda>(k, v). (k, resolve P g v)) ins"

text \<open>The node under a key replaced: the in-place mutation of \<^verbatim>\<open>node.inputs\<close>.\<close>

definition set_node :: "comfy_prompt \<Rightarrow> string \<Rightarrow> ComfyNode \<Rightarrow> comfy_prompt" where
  "set_node g i n = map (\<lambda>(k, m). if k = i then (k, n) else (k, m)) g"

text \<open>\<^verbatim>\<open>getNumberValue(input)\<close>.\<close>

definition getNumberValue :: "comfy_prompt \<Rightarrow> comfy_value \<Rightarrow> js_error + comfy_value" where
  "getNumberValue g input =
     (case input of
        VNum n \<Rightarrow> Inr (VNum n)
      | _ \<Rightarrow> (case get_inputs g input of
                Inl e \<Rightarrow> Inl e
              | Inr None \<Rightarrow> Inl TypeError
              | Inr (Some ins) \<Rightarrow> Inr (get_prop ins ''Value'')))"

text \<open>\<^verbatim>\<open>modelFileName(v as string)\<close>: \<^verbatim>\<open>name.replace\<close> throws unless \<open>v\<close> is a string.\<close>

fun modelFileName_of :: "comfy_value \<Rightarrow> js_error + string" where
  "modelFileName_of (VStr s) = Inr (modelFileName s)"
| "modelFileName_of v = Inl TypeError"

text \<open>\<^verbatim>\<open>(h as string) || undefined\<close>.\<close>

definition or_undefined :: "string option \<Rightarrow> string option" where
  "or_undefined h = (if truthy_str h then h else None)"

record SDResource =
  name :: string
  type :: string
  weight :: comfy_value
  weightClip :: comfy_value
  hash :: "string option"

text \<open>The local variables of \<^verbatim>\<open>parse\<close> that the loop updates, and the prompt it mutates.\<close>

record sweep =
  graph :: comfy_prompt
  samplerNodes :: "comfy_inputs list"
  models :: "string list"
  upscalers :: "comfy_value list"
  vaes :: "comfy_value list"
  controlNets :: "comfy_value list"
  additionalResources :: "SDResource list"
  hashes :: "(string \<times> string) list"

definition initial :: "comfy_prompt \<Rightarrow> sweep" where
  "initial g = \<lparr>graph = g, samplerNodes = [], models = [], upscalers = [], vaes = [],
     controlNets = [], additionalResources = [], hashes = []\<rparr>"

text \<open>
  \<^verbatim>\<open>strength < 0.001 && strength > -0.001\<close>. On finite doubles the comparison with the
  double nearest to \<open>0.001\<close> decides the same as the comparison with \<open>1/1000\<close>: no double lies
  between the two. A comparison with \<^verbatim>\<open>NaN\<close> is false.
\<close>

definition near_zero :: "platform \<Rightarrow> comfy_value \<Rightarrow> bool" where
  "near_zero P strength =
     (case to_number P strength of None \<Rightarrow> False | Some x \<Rightarrow> x < 1 / 1000 \<and> x > - (1 / 1000))"

definition visit_LoraLoader :: "platform \<Rightarrow> ComfyNode \<Rightarrow> sweep \<Rightarrow> js_error + sweep" where
  "visit_LoraLoader P node s =
     (let strength = get_prop (inputs node) ''strength_model''
      in if near_zero P strength then Inr s
         else
           (let hash_value = or_undefined (lora_hash node)
            in case modelFileName_of (get_prop (inputs node) ''lora_name'') of
                 Inl e \<Rightarrow> Inl e
               | Inr lora_name \<Rightarrow>
                   Inr (s\<lparr>hashes :=
                            (case hash_value of
                               None \<Rightarrow> hashes s
                             | Some h \<Rightarrow> AList.update (''lora:'' @ lora_name) h (hashes s)),
                          additionalResources := additionalResources s @
                            [\<lparr>name = lora_name, type = ''lora'', weight = strength,
                              weightClip = get_prop (inputs node) ''strength_clip'',
                              hash = hash_value\<rparr>]\<rparr>)))"

definition visit_CheckpointLoaderSimple :: "ComfyNode \<Rightarrow> sweep \<Rightarrow> js_error + sweep" where
  "visit_CheckpointLoaderSimple node s =
     (case modelFileName_of (get_prop (inputs node) ''ckpt_name'') of
        Inl e \<Rightarrow> Inl e
      | Inr model_name \<Rightarrow>
          (let hash_value = or_undefined (ckpt_hash node)
           in Inr (s\<lparr>models := models s @ [model_name],
                     hashes :=
                       (case hash_value of
                          None \<Rightarrow> hashes s
                        | Some h \<Rightarrow>
                            if \<not> truthy_str (map_of (hashes s) ''model'')
                            then AList.update ''model'' h (hashes s) else hashes s),
                     additionalResources := additionalResources s @
                       [\<lparr>name = model_name, type = ''model'', weight = VUndefined,
                         weightClip = VUndefined, hash = hash_value\<rparr>]\<rparr>)))"

definition visit_KSamplerAdvanced :: "ComfyNode \<Rightarrow> sweep \<Rightarrow> js_error + sweep" where
  "visit_KSamplerAdvanced node s =
     (case getNumberValue (graph s) (get_prop (inputs node) ''steps'') of
        Inl e \<Rightarrow> Inl e
      | Inr steps_value \<Rightarrow>
          (let simplifiedNode = AList.update ''steps'' steps_value (inputs node)
           in case getNumberValue (graph s) (get_prop simplifiedNode ''cfg'') of
                Inl e \<Rightarrow> Inl e
              | Inr cfg_value \<Rightarrow>
                  Inr (s\<lparr>samplerNodes := samplerNodes s @
                          [AList.update ''cfg'' cfg_value simplifiedNode]\<rparr>)))"

text \<open>
  The body of the loop for the node under key \<open>i\<close>: its edges are resolved and written back,
  then the node is classified by its type tag. The source tests the tag in a row of
  independent \<^verbatim>\<open>if\<close> statements; at most one of them holds, so they are a chain here, and the
  \<^verbatim>\<open>continue\<close> of the \<^verbatim>\<open>LoraLoader\<close> branch skips only tests that fail anyway.
\<close>

definition visit :: "platform \<Rightarrow> string \<Rightarrow> sweep \<Rightarrow> js_error + sweep" where
  "visit P i s =
     (case deref (graph s) i of
        None \<Rightarrow> Inr s
      | Some node0 \<Rightarrow>
          (let node = node0\<lparr>inputs := resolve_inputs P (graph s) (inputs node0)\<rparr>;
               s1 = s\<lparr>graph := set_node (graph s) i node\<rparr>
           in if class_type node = ''KSamplerAdvanced'' then visit_KSamplerAdvanced node s1
              else if class_type node = ''KSampler''
                then Inr (s1\<lparr>samplerNodes := samplerNodes s1 @ [inputs node]\<rparr>)
              else if class_type node = ''LoraLoader'' then visit_LoraLoader P node s1
              else if class_type node = ''CheckpointLoaderSimple''
                then visit_CheckpointLoaderSimple node s1
              else if class_type node = ''UpscaleModelLoader''
                then Inr (s1\<lparr>upscalers := upscalers s1 @ [get_prop (inputs node) ''model_name'']\<rparr>)
              else if class_type node = ''VAELoader''
                then Inr (s1\<lparr>vaes := vaes s1 @ [get_prop (inputs node) ''vae_name'']\<rparr>)
              else if class_type node = ''ControlNetLoader''
                then Inr (s1\<lparr>controlNets := controlNets s1 @ [get_prop (inputs node) ''control_net_name'']\<rparr>)
              else Inr s1))"

text \<open>\<^verbatim>\<open>for (const node of Object.values(prompt))\<close>: the keys in order, stopping at a throw.\<close>

fun sweep_nodes :: "platform \<Rightarrow> string list \<Rightarrow> sweep \<Rightarrow> js_error + sweep" where
  "sweep_nodes P [] s = Inr s"
| "sweep_nodes P (i # is) s =
     (case visit P i s of Inl e \<Rightarrow> Inl e | Inr s' \<Rightarrow> sweep_nodes P is s')"

section \<open>The processor\<close>

subsection \<open>The workflow document\<close>

fun json_truthy :: "json \<Rightarrow> bool" where
  "json_truthy JNull = False"
| "json_truthy (JBool b) = b"
| "json_truthy (JNum n) = (n \<noteq> 0)"
| "json_truthy (JStr s) = (s \<noteq> [])"
| "json_truthy (JArr xs) = True"
| "json_truthy (JObj kvs) = True"

text \<open>
  \<^verbatim>\<open>v[key]\<close> for a value that is neither \<^verbatim>\<open>null\<close> nor \<^verbatim>\<open>undefined\<close> and a key that no
  prototype defines: the entry of an object, \<^verbatim>\<open>undefined\<close> (\<open>None\<close>) on anything else.
\<close>

fun json_get :: "json \<Rightarrow> string \<Rightarrow> json option" where
  "json_get (JObj kvs) k = map_of kvs k"
| "json_get v k = None"

definition AIR_KEYS :: "string list" where
  "AIR_KEYS = [''ckpt_airs'', ''lora_airs'', ''embedding_airs'']"

text \<open>\<^verbatim>\<open>for (const air of airs)\<close>: an array yields its elements, a string its characters,
  anything else is not iterable.\<close>

fun iterate :: "json \<Rightarrow> js_error + json list" where
  "iterate (JArr xs) = Inr xs"
| "iterate (JStr s) = Inr (map (\<lambda>c. JStr [c]) s)"
| "iterate v = Inl TypeError"

text \<open>
  The body of the inner loop. \<^verbatim>\<open>air.split\<close> exists on a string only. The first piece of a
  split always exists; the second is \<^verbatim>\<open>undefined\<close> when the text has no \<^verbatim>\<open>@\<close>.
\<close>

fun scan_air :: "platform \<Rightarrow> json \<Rightarrow> rat option list \<times> rat option list
    \<Rightarrow> js_error + rat option list \<times> rat option list" where
  "scan_air P (JStr air) (versionIds, modelIds) =
     (let parts = split (CHR ''@'') air;
          modelId = parts ! 0;
          versionId = (if 1 < length parts then Some (parts ! 1) else None)
      in if truthy_str versionId then Inr (versionIds @ [parseInt P (the versionId)], modelIds)
         else if modelId \<noteq> [] then Inr (versionIds, modelIds @ [parseInt P modelId])
         else Inr (versionIds, modelIds))"
| "scan_air P v acc = Inl TypeError"

fun scan_airs :: "platform \<Rightarrow> json list \<Rightarrow> rat option list \<times> rat option list
    \<Rightarrow> js_error + rat option list \<times> rat option list" where
  "scan_airs P [] acc = Inr acc"
| "scan_airs P (air # airs) acc =
     (case scan_air P air acc of Inl e \<Rightarrow> Inl e | Inr acc' \<Rightarrow> scan_airs P airs acc')"

fun scan_keys :: "platform \<Rightarrow> json \<Rightarrow> string list \<Rightarrow> rat option list \<times> rat option list
    \<Rightarrow> js_error + rat option list \<times> rat option list" where
  "scan_keys P extra [] acc = Inr acc"
| "scan_keys P extra (key # keys) acc =
     (case json_get extra key of
        None \<Rightarrow> scan_keys P extra keys acc
      | Some airs \<Rightarrow>
          if \<not> json_truthy airs then scan_keys P extra keys acc
          else (case iterate airs of
                  Inl e \<Rightarrow> Inl e
                | Inr xs \<Rightarrow> (case scan_airs P xs acc of
                              Inl e \<Rightarrow> Inl e
                            | Inr acc' \<Rightarrow> scan_keys P extra keys acc')))"

text \<open>\<^verbatim>\<open>if (workflow?.extra) { for (const key of AIR_KEYS) ... }\<close>.\<close>

definition scan_workflow :: "platform \<Rightarrow> json \<Rightarrow> js_error + rat option list \<times> rat option list" where
  "scan_workflow P workflow =
     (case json_get workflow ''extra'' of
        None \<Rightarrow> Inr ([], [])
      | Some extra \<Rightarrow>
          if json_truthy extra then scan_keys P extra AIR_KEYS ([], []) else Inr ([], []))"

subsection \<open>The prompt as \<^verbatim>\<open>JSON.stringify\<close> sees it\<close>

text \<open>
  After the sweep the nodes refer to each other, and \<^verbatim>\<open>JSON.stringify\<close> writes a node out
  wherever it is referred to. It throws a \<^verbatim>\<open>TypeError\<close> when it meets an object that it is
  in the middle of writing (\<open>stack\<close>); a property whose value is \<^verbatim>\<open>undefined\<close> is left out.
\<close>

definition node_json :: "ComfyNode \<Rightarrow> (string \<times> json) list \<Rightarrow> json" where
  "node_json n ins =
     JObj ([(''inputs'', JObj ins), (''class_type'', JStr (class_type n))]
           @ (case ckpt_hash n of None \<Rightarrow> [] | Some h \<Rightarrow> [(''ckpt_hash'', JStr h)])
           @ (case lora_hash n of None \<Rightarrow> [] | Some h \<Rightarrow> [(''lora_hash'', JStr h)]))"

fun part_json :: "edge_part \<Rightarrow> json" where
  "part_json (EStr s) = JStr s"
| "part_json (ENum n) = JNum n"

function snapshot_inputs :: "comfy_prompt \<Rightarrow> string list \<Rightarrow> comfy_inputs
    \<Rightarrow> js_error + (string \<times> json) list" where
  "snapshot_inputs g stack [] = Inr []"
| "snapshot_inputs g stack ((k, v) # kvs) =
     (case (case v of
              VUndefined \<Rightarrow> Inr None
            | VNum n \<Rightarrow> Inr (Some (JNum n))
            | VStr s \<Rightarrow> Inr (Some (JStr s))
            | VArr es \<Rightarrow> Inr (Some (JArr (map part_json es)))
            | VNode i \<Rightarrow>
                (case deref g i of
                   None \<Rightarrow> Inr None
                 | Some n \<Rightarrow>
                     if i \<in> set stack then Inl TypeError
                     else (case snapshot_inputs g (i # stack) (inputs n) of
                             Inl e \<Rightarrow> Inl e
                           | Inr ins \<Rightarrow> Inr (Some (node_json n ins))))) of
        Inl e \<Rightarrow> Inl e
      | Inr j \<Rightarrow>
          (case snapshot_inputs g stack kvs of
             Inl e \<Rightarrow> Inl e
           | Inr rest \<Rightarrow> Inr (case j of None \<Rightarrow> rest | Some x \<Rightarrow> (k, x) # rest)))"
  by pat_completeness auto
termination
proof (relation "measures [\<lambda>(g, stack, kvs). card (fst ` set g - set stack),
                            \<lambda>(g, stack, kvs). length kvs]")
  show "wf (measures [\<lambda>(g, stack, kvs). card (fst ` set g - set stack),
                      \<lambda>(g, stack, kvs). length kvs])"
    by simp
next
  fix g :: comfy_prompt and stack :: "string list" and k :: string and v :: comfy_value
    and kvs :: comfy_inputs and i :: string and n :: ComfyNode
  assume "deref g i = Some n" and "i \<notin> set stack"
  then have mem: "i \<in> fst ` set g - set stack"
    by (auto simp: deref_def dest!: map_of_SomeD intro: rev_image_eqI)
  have fin: "finite (fst ` set g - set stack)"
    by simp
  have "fst ` set g - set (i # stack) = (fst ` set g - set stack) - {i}"
    by auto
  with card_Diff1_less[OF fin mem]
  have "card (fst ` set g - set (i # stack)) < card (fst ` set g - set stack)"
    by simp
  then show "((g, i # stack, inputs n), (g, stack, (k, v) # kvs))
      \<in> measures [\<lambda>(g, stack, kvs). card (fst ` set g - set stack),
                   \<lambda>(g, stack, kvs). length kvs]"
    by simp
next
  fix g :: comfy_prompt and stack :: "string list" and k :: string and v :: comfy_value
    and kvs :: comfy_inputs
  show "((g, stack, kvs), (g, stack, (k, v) # kvs))
      \<in> measures [\<lambda>(g, stack, kvs). card (fst ` set g - set stack),
                   \<lambda>(g, stack, kvs). length kvs]"
    by simp
qed

fun snapshot_nodes :: "comfy_prompt \<Rightarrow> comfy_prompt \<Rightarrow> js_error + (string \<times> json) list" where
  "snapshot_nodes g [] = Inr []"
| "snapshot_nodes g ((i, n) # rest) =
     (case snapshot_inputs g [i] (inputs n) of
        Inl e \<Rightarrow> Inl e
      | Inr ins \<Rightarrow>
          (case snapshot_nodes g rest of
             Inl e \<Rightarrow> Inl e
           | Inr js \<Rightarrow> Inr ((i, node_json n ins) # js)))"

definition snapshot_prompt :: "comfy_prompt \<Rightarrow> js_error + json" where
  "snapshot_prompt g = (case snapshot_nodes g g of Inl e \<Rightarrow> Inl e | Inr js \<Rightarrow> Inr (JObj js))"

subsection \<open>The canonical sampler\<close>

text \<open>
  \<^verbatim>\<open>samplerNodes.find((x) => x.latent_image.class_type == 'EmptyLatentImage')\<close>: the callback
  runs on the samplers in order and throws where \<^verbatim>\<open>latent_image\<close> is \<^verbatim>\<open>undefined\<close>; \<open>None\<close>
  is the \<^verbatim>\<open>undefined\<close> that \<^verbatim>\<open>find\<close> returns when no element passes.
\<close>

fun find_EmptyLatentImage :: "comfy_prompt \<Rightarrow> comfy_inputs list \<Rightarrow> js_error + comfy_inputs option" where
  "find_EmptyLatentImage g [] = Inr None"
| "find_EmptyLatentImage g (x # xs) =
     (case get_class_type g (get_prop x ''latent_image'') of
        Inl e \<Rightarrow> Inl e
      | Inr ct \<Rightarrow> if ct = Some ''EmptyLatentImage'' then Inr (Some x) else find_EmptyLatentImage g xs)"

text \<open>\<^verbatim>\<open>... ?? samplerNodes[0]\<close>; \<open>None\<close> is the \<^verbatim>\<open>undefined\<close> read from an empty list.\<close>

definition initialSamplerNode :: "comfy_prompt \<Rightarrow> comfy_inputs list \<Rightarrow> js_error + comfy_inputs option" where
  "initialSamplerNode g samplers =
     (case find_EmptyLatentImage g samplers of
        Inl e \<Rightarrow> Inl e
      | Inr (Some x) \<Rightarrow> Inr (Some x)
      | Inr None \<Rightarrow> Inr (case samplers of [] \<Rightarrow> None | x # _ \<Rightarrow> Some x))"

subsection \<open>The metadata record\<close>

text \<open>
  The fields of \<^verbatim>\<open>ImageMetaProps\<close> that \<^verbatim>\<open>parse\<close> fills. A field that shares its name with
  a local variable of the loop carries a prime. \<open>Model_hash\<close> is the property
  \<^verbatim>\<open>'Model hash'\<close>. The source declares \<^verbatim>\<open>comfy\<close> as a string or a decoded payload.
\<close>

datatype comfy_field = ComfyAbsent | ComfyText string | ComfyObject json

record ImageMetaProps =
  prompt :: comfy_value
  negativePrompt :: comfy_value
  cfgScale :: comfy_value
  steps :: comfy_value
  seed :: comfy_value
  sampler :: comfy_value
  scheduler :: comfy_value
  denoise :: comfy_value
  width :: comfy_value
  height :: comfy_value
  hashes' :: "(string \<times> string) list"
  models' :: "string list"
  upscalers' :: "comfy_value list"
  vaes' :: "comfy_value list"
  additionalResources' :: "SDResource list"
  controlNets' :: "comfy_value list"
  versionIds :: "rat option list"
  modelIds :: "rat option list"
  comfy :: comfy_field
  Model :: "string option"
  Model_hash :: "string option"

text \<open>
  Modelled from the spec: \<^verbatim>\<open>findKeyForValue\<close> of \<^verbatim>\<open>utils/map-helpers\<close> is not available.
  The specification: a reverse lookup finds a table key whose associated value equals the
  probe; the first match in iteration order wins; without a match the result is
  \<^verbatim>\<open>undefined\<close>.
\<close>

fun findKeyForValue :: "(string \<times> string) list \<Rightarrow> string \<Rightarrow> string option" where
  "findKeyForValue [] probe = None"
| "findKeyForValue ((k, v) # m) probe = (if v = probe then Some k else findKeyForValue m probe)"

text \<open>The second lookup probes with the sampler name itself, which matches as a string only.\<close>

fun findKeyForValue_of :: "(string \<times> string) list \<Rightarrow> comfy_value \<Rightarrow> string option" where
  "findKeyForValue_of m (VStr s) = findKeyForValue m s"
| "findKeyForValue_of m v = None"

definition a1111Compatability :: "platform \<Rightarrow> ImageMetaProps \<Rightarrow> ImageMetaProps" where
  "a1111Compatability P metadata =
     (let samplerName = sampler metadata;
          a1 = (if loose_eq_str P (scheduler metadata) ''karras''
                then findKeyForValue (samplerMap P) (to_string P samplerName @ ''_karras'')
                else None);
          a2 = (if \<not> truthy_str a1 then findKeyForValue_of (samplerMap P) samplerName else a1);
          m1 = (if truthy_str a2 then metadata\<lparr>sampler := VStr (the a2)\<rparr> else metadata)
      in case models' m1 of
           [] \<Rightarrow> m1
         | m # _ \<Rightarrow> m1\<lparr>Model := Some (strip_ext m)\<rparr>)"

text \<open>\<^verbatim>\<open>additionalResources.find((resource) => resource.type === 'model')\<close>.\<close>

definition model_resource :: "SDResource list \<Rightarrow> SDResource option" where
  "model_resource rs = find (\<lambda>r. type r = ''model'') rs"

text \<open>
  \<^verbatim>\<open>v.inputs[key]\<close> where \<^verbatim>\<open>v.inputs\<close> must exist: the reads
  \<^verbatim>\<open>initialSamplerNode.latent_image.inputs.width\<close> and \<^verbatim>\<open>conditioningNode.inputs.text\<close>.
\<close>

definition inputs_prop :: "comfy_prompt \<Rightarrow> comfy_value \<Rightarrow> string \<Rightarrow> js_error + comfy_value" where
  "inputs_prop g v k =
     (case get_inputs g v of
        Inl e \<Rightarrow> Inl e
      | Inr None \<Rightarrow> Inl TypeError
      | Inr (Some ins) \<Rightarrow> Inr (get_prop ins k))"

text \<open>
  The rest of \<^verbatim>\<open>parse\<close> once the canonical sampler, the decoded workflow and the two id
  lists are there: the object literal, whose properties are evaluated in the order they are
  written, the model fallback, the \<^verbatim>\<open>ControlNetApply\<close> case and the compatibility mapping.
\<close>

definition build_metadata :: "platform \<Rightarrow> sweep \<Rightarrow> comfy_inputs \<Rightarrow> json
    \<Rightarrow> rat option list \<Rightarrow> rat option list \<Rightarrow> js_error + ImageMetaProps" where
  "build_metadata P s node workflow vIds mIds =
     (case getPromptText (stack_limit P) P (graph s) (get_prop node ''positive'') of
        Inl e \<Rightarrow> Inl e
      | Inr prompt_text \<Rightarrow>
     (case getPromptText (stack_limit P) P (graph s) (get_prop node ''negative'') of
        Inl e \<Rightarrow> Inl e
      | Inr negative_text \<Rightarrow>
     (case inputs_prop (graph s) (get_prop node ''latent_image'') ''width'' of
        Inl e \<Rightarrow> Inl e
      | Inr width_value \<Rightarrow>
     (case inputs_prop (graph s) (get_prop node ''latent_image'') ''height'' of
        Inl e \<Rightarrow> Inl e
      | Inr height_value \<Rightarrow>
     (case snapshot_prompt (graph s) of
        Inl e \<Rightarrow> Inl e
      | Inr prompt_json \<Rightarrow>
          (let metadata =
                 \<lparr>prompt = prompt_text,
                  negativePrompt = negative_text,
                  cfgScale = get_prop node ''cfg'',
                  steps = get_prop node ''steps'',
                  seed = get_prop node ''seed'',
                  sampler = get_prop node ''sampler_name'',
                  scheduler = get_prop node ''scheduler'',
                  denoise = get_prop node ''denoise'',
                  width = width_value,
                  height = height_value,
                  hashes' = hashes s,
                  models' = models s,
                  upscalers' = upscalers s,
                  vaes' = vaes s,
                  additionalResources' = additionalResources s,
                  controlNets' = controlNets s,
                  versionIds = vIds,
                  modelIds = mIds,
                  comfy = ComfyText (JSON_stringify P
                            (JObj [(''prompt'', prompt_json), (''workflow'', workflow)])),
                  Model = None,
                  Model_hash = None\<rparr>;
               metadata1 =
                 (case model_resource (additionalResources s) of
                    None \<Rightarrow> metadata
                  | Some r \<Rightarrow> metadata\<lparr>Model := Some (name r), Model_hash := hash r\<rparr>)
           in case get_class_type (graph s) (get_prop node ''positive'') of
                Inl e \<Rightarrow> Inl e
              | Inr ct \<Rightarrow>
                  if ct = Some ''ControlNetApply''
                  then (case inputs_prop (graph s) (get_prop node ''positive'') ''conditioning'' of
                          Inl e \<Rightarrow> Inl e
                        | Inr conditioningNode \<Rightarrow>
                            (case inputs_prop (graph s) conditioningNode ''text'' of
                               Inl e \<Rightarrow> Inl e
                             | Inr t \<Rightarrow> Inr (a1111Compatability P (metadata1\<lparr>prompt := t\<rparr>))))
                  else Inr (a1111Compatability P metadata1)))))))"

text \<open>
  \<^verbatim>\<open>parse(exif)\<close>. \<^verbatim>\<open>cleanBadJson(undefined)\<close> throws a \<^verbatim>\<open>TypeError\<close> and
  \<^verbatim>\<open>JSON.parse(undefined)\<close> a \<^verbatim>\<open>SyntaxError\<close>. The canonical sampler is chosen before the
  workflow is decoded and is first read in the object literal.
\<close>

definition parse :: "platform \<Rightarrow> exif \<Rightarrow> js_error + ImageMetaProps" where
  "parse P e =
     (case exif_prompt e of
        None \<Rightarrow> Inl TypeError
      | Some text \<Rightarrow>
     (case JSON_parse_prompt P (cleanBadJson text) of
        None \<Rightarrow> Inl SyntaxError
      | Some g \<Rightarrow>
     (case sweep_nodes P (map fst g) (initial g) of
        Inl err \<Rightarrow> Inl err
      | Inr s \<Rightarrow>
     (case initialSamplerNode (graph s) (samplerNodes s) of
        Inl err \<Rightarrow> Inl err
      | Inr chosen \<Rightarrow>
     (case (case exif_workflow e of None \<Rightarrow> None | Some w \<Rightarrow> JSON_parse P w) of
        None \<Rightarrow> Inl SyntaxError
      | Some workflow \<Rightarrow>
     (case scan_workflow P workflow of
        Inl err \<Rightarrow> Inl err
      | Inr (vIds, mIds) \<Rightarrow>
     (case chosen of
        None \<Rightarrow> Inl TypeError
      | Some node \<Rightarrow> build_metadata P s node workflow vIds mIds)))))))"

text \<open>
  \<^verbatim>\<open>encode(meta)\<close>. \<open>None\<close> is what \<open>fromJson\<close> gives when it yields no value,
  and \<^verbatim>\<open>comfy && comfy.workflow\<close> is falsy then.
\<close>

definition encode :: "platform \<Rightarrow> ImageMetaProps \<Rightarrow> string" where
  "encode P meta =
     (let decoded = (case comfy meta of
                       ComfyAbsent \<Rightarrow> None
                     | ComfyText t \<Rightarrow> fromJson P t
                     | ComfyObject j \<Rightarrow> Some j)
      in case decoded of
           None \<Rightarrow> []
         | Some c \<Rightarrow>
             if json_truthy c
             then (case json_get c ''workflow'' of
                     None \<Rightarrow> []
                   | Some w \<Rightarrow> if json_truthy w then JSON_stringify P w else [])
             else [])"

section \<open>A platform to run the processor on\<close>

text \<open>
  The theorems hold for every platform. To evaluate the processor on concrete metadata, this
  section supplies one: a reader and a writer for JSON text without white space, with the
  integers as numbers and with the two escapes \<^verbatim>\<open>\"\<close> and \<^verbatim>\<open>\\\<close> in strings, a table of
  three samplers, and a stack of 64 calls. It stands in for the JavaScript engine on the
  examples only: their texts are compact JSON whose node keys are written in ascending order,
  which is the order \<^verbatim>\<open>Object.values\<close> visits them in.
\<close>

definition dq :: char where
  "dq = CHR 0x22"

definition digits :: string where
  "digits = ''0123456789''"

definition is_digit :: "char \<Rightarrow> bool" where
  "is_digit c = (c \<in> set digits)"

text \<open>Decimal digits of an integer; the arithmetic is on \<open>int\<close>, whose numerals are binary.\<close>

definition digit_value :: "char \<Rightarrow> int" where
  "digit_value c = int (length (takeWhile (\<lambda>d. d \<noteq> c) digits))"

definition digit_char :: "int \<Rightarrow> char" where
  "digit_char i = digits ! nat i"

function show_digits :: "int \<Rightarrow> string" where
  "show_digits i =
     (if i < 10 then [digit_char i] else show_digits (i div 10) @ [digit_char (i mod 10)])"
  by pat_completeness auto
termination
  by (relation "measure nat") auto

definition show_int :: "int \<Rightarrow> string" where
  "show_int i = (if i < 0 then CHR ''-'' # show_digits (- i) else show_digits i)"

text \<open>A number that is no integer is written as a quotient, which the reader rejects.\<close>

definition show_rat :: "rat \<Rightarrow> string" where
  "show_rat r =
     (case quotient_of r of
        (n, d) \<Rightarrow> if d = 1 then show_int n else show_int n @ ''/'' @ show_int d)"

definition read_digits :: "string \<Rightarrow> int" where
  "read_digits ds = foldl (\<lambda>acc c. 10 * acc + digit_value c) 0 ds"

text \<open>An optional sign and one or more digits, and nothing else.\<close>

definition read_int :: "string \<Rightarrow> rat option" where
  "read_int t =
     (let ds = (case t of c # cs \<Rightarrow> if c = CHR ''-'' then cs else t | [] \<Rightarrow> [])
      in if ds \<noteq> [] \<and> list_all is_digit ds
         then Some (if ds = t then of_int (read_digits ds) else - of_int (read_digits ds))
         else None)"

fun escape :: "string \<Rightarrow> string" where
  "escape [] = []"
| "escape (c # cs) = (if c = dq \<or> c = bsl then bsl # c # escape cs else c # escape cs)"

fun write_json :: "json \<Rightarrow> string"
  and write_elements :: "json list \<Rightarrow> string"
  and write_members :: "(string \<times> json) list \<Rightarrow> string" where
  "write_json JNull = ''null''"
| "write_json (JBool b) = (if b then ''true'' else ''false'')"
| "write_json (JNum r) = show_rat r"
| "write_json (JStr s) = dq # escape s @ [dq]"
| "write_json (JArr xs) = ''['' @ write_elements xs @ '']''"
| "write_json (JObj kvs) = ''{'' @ write_members kvs @ ''}''"
| "write_elements [] = []"
| "write_elements [x] = write_json x"
| "write_elements (x # y # ys) = write_json x @ '','' @ write_elements (y # ys)"
| "write_members [] = []"
| "write_members [(k, v)] = dq # escape k @ [dq] @ '':'' @ write_json v"
| "write_members ((k, v) # kv # kvs) =
     dq # escape k @ [dq] @ '':'' @ write_json v @ '','' @ write_members (kv # kvs)"

text \<open>The text of a string up to its closing quote, and what follows the quote.\<close>

fun read_string :: "string \<Rightarrow> (string \<times> string) option" where
  "read_string [] = None"
| "read_string [c] = (if c = dq then Some ([], []) else None)"
| "read_string (c # e # cs) =
     (if c = dq then Some ([], e # cs)
      else if c = bsl
        then (if e = dq \<or> e = bsl
              then (case read_string cs of None \<Rightarrow> None | Some (t, rest) \<Rightarrow> Some (e # t, rest))
              else None)
      else (case read_string (e # cs) of None \<Rightarrow> None | Some (t, rest) \<Rightarrow> Some (c # t, rest)))"

text \<open>
  The reader. Its first argument bounds the number of nested calls; one more than the length
  of the text is enough, since every call consumes a character before it calls again.
\<close>

fun read_json :: "nat \<Rightarrow> string \<Rightarrow> (json \<times> string) option"
  and read_elements :: "nat \<Rightarrow> string \<Rightarrow> (json list \<times> string) option"
  and read_members :: "nat \<Rightarrow> string \<Rightarrow> ((string \<times> json) list \<times> string) option" where
  "read_json 0 t = None"
| "read_json (Suc n) t =
     (if prefix ''null'' t then Some (JNull, drop 4 t)
      else if prefix ''true'' t then Some (JBool True, drop 4 t)
      else if prefix ''false'' t then Some (JBool False, drop 5 t)
      else (case t of
              [] \<Rightarrow> None
            | c # cs \<Rightarrow>
                if c = dq
                then (case read_string cs of None \<Rightarrow> None | Some (s, rest) \<Rightarrow> Some (JStr s, rest))
                else if c = CHR ''[''
                then (if prefix '']'' cs then Some (JArr [], drop 1 cs)
                      else (case read_elements n cs of
                              None \<Rightarrow> None
                            | Some (xs, rest) \<Rightarrow> Some (JArr xs, rest)))
                else if c = CHR ''{''
                then (if prefix ''}'' cs then Some (JObj [], drop 1 cs)
                      else (case read_members n cs of
                              None \<Rightarrow> None
                            | Some (kvs, rest) \<Rightarrow> Some (JObj kvs, rest)))
                else (let num = c # takeWhile is_digit cs
                      in case read_int num of
                           None \<Rightarrow> None
                         | Some r \<Rightarrow> Some (JNum r, dropWhile is_digit cs))))"
| "read_elements 0 t = None"
| "read_elements (Suc n) t =
     (case read_json n t of
        None \<Rightarrow> None
      | Some (x, rest) \<Rightarrow>
          (case rest of
             [] \<Rightarrow> None
           | c # cs \<Rightarrow>
               if c = CHR '']'' then Some ([x], cs)
               else if c = CHR '',''
               then (case read_elements n cs of
                       None \<Rightarrow> None
                     | Some (xs, rest') \<Rightarrow> Some (x # xs, rest'))
               else None))"
| "read_members 0 t = None"
| "read_members (Suc n) t =
     (case t of
        [] \<Rightarrow> None
      | q # t1 \<Rightarrow>
          if q \<noteq> dq then None
          else (case read_string t1 of
                  None \<Rightarrow> None
                | Some (k, t2) \<Rightarrow>
                    (case t2 of
                       [] \<Rightarrow> None
                     | colon # t3 \<Rightarrow>
                         if colon \<noteq> CHR '':'' then None
                         else (case read_json n t3 of
                                 None \<Rightarrow> None
                               | Some (v, rest) \<Rightarrow>
                                   (case rest of
                                      [] \<Rightarrow> None
                                    | c # cs \<Rightarrow>
                                        if c = CHR ''}'' then Some ([(k, v)], cs)
                                        else if c = CHR '',''
                                        then (case read_members n cs of
                                                None \<Rightarrow> None
                                              | Some (kvs, rest') \<Rightarrow> Some ((k, v) # kvs, rest'))
                                        else None)))))"

definition read_document :: "string \<Rightarrow> json option" where
  "read_document t =
     (case read_json (Suc (length t)) t of
        None \<Rightarrow> None
      | Some (v, rest) \<Rightarrow> if rest = [] then Some v else None)"

text \<open>
  The decoded prompt at the type the source declares for it. A document of another shape has
  no value of that type; the instance gives \<open>None\<close> for it.
\<close>

fun as_part :: "json \<Rightarrow> edge_part option" where
  "as_part (JStr s) = Some (EStr s)"
| "as_part (JNum n) = Some (ENum n)"
| "as_part v = None"

fun as_parts :: "json list \<Rightarrow> edge_part list option" where
  "as_parts [] = Some []"
| "as_parts (x # xs) =
     (case as_part x of
        None \<Rightarrow> None
      | Some p \<Rightarrow> (case as_parts xs of None \<Rightarrow> None | Some ps \<Rightarrow> Some (p # ps)))"

fun as_value :: "json \<Rightarrow> comfy_value option" where
  "as_value (JNum n) = Some (VNum n)"
| "as_value (JStr s) = Some (VStr s)"
| "as_value (JArr xs) = (case as_parts xs of None \<Rightarrow> None | Some ps \<Rightarrow> Some (VArr ps))"
| "as_value v = None"

fun as_inputs :: "(string \<times> json) list \<Rightarrow> comfy_inputs option" where
  "as_inputs [] = Some []"
| "as_inputs ((k, x) # kvs) =
     (case as_value x of
        None \<Rightarrow> None
      | Some v \<Rightarrow> (case as_inputs kvs of None \<Rightarrow> None | Some ins \<Rightarrow> Some ((k, v) # ins)))"

fun as_hash :: "json option \<Rightarrow> string option option" where
  "as_hash None = Some None"
| "as_hash (Some (JStr h)) = Some (Some h)"
| "as_hash (Some v) = None"

definition as_node :: "json \<Rightarrow> ComfyNode option" where
  "as_node j =
     (case (json_get j ''inputs'', json_get j ''class_type'',
            as_hash (json_get j ''ckpt_hash''), as_hash (json_get j ''lora_hash'')) of
        (Some (JObj kvs), Some (JStr ct), Some ch, Some lh) \<Rightarrow>
          (case as_inputs kvs of
             None \<Rightarrow> None
           | Some ins \<Rightarrow> Some \<lparr>inputs = ins, class_type = ct, ckpt_hash = ch, lora_hash = lh\<rparr>)
      | _ \<Rightarrow> None)"

fun as_nodes :: "(string \<times> json) list \<Rightarrow> comfy_prompt option" where
  "as_nodes [] = Some []"
| "as_nodes ((k, x) # kvs) =
     (case as_node x of
        None \<Rightarrow> None
      | Some n \<Rightarrow> (case as_nodes kvs of None \<Rightarrow> None | Some g \<Rightarrow> Some ((k, n) # g)))"

fun as_prompt :: "json \<Rightarrow> comfy_prompt option" where
  "as_prompt (JObj kvs) = as_nodes kvs"
| "as_prompt v = None"

definition example_platform :: platform where
  "example_platform =
     \<lparr>JSON_parse_prompt = (\<lambda>t. case read_document t of None \<Rightarrow> None | Some j \<Rightarrow> as_prompt j),
      JSON_parse = read_document,
      JSON_stringify = write_json,
      fromJson = read_document,
      Number_toString = show_rat,
      String_toNumber = read_int,
      parseInt = read_int,
      samplerMap = [(''Euler a'', ''euler_ancestral''), (''Euler'', ''euler''),
                    (''DPM++ 2M Karras'', ''dpmpp_2m_karras'')],
      stack_limit = 64\<rparr>"

section \<open>Readings of the specification\<close>

text \<open>
  The hash a node carries for the key \<^verbatim>\<open>model\<close>: the \<^verbatim>\<open>ckpt_hash\<close> of a
  \<^verbatim>\<open>CheckpointLoaderSimple\<close> node, when it has one that is not empty.
\<close>

definition carried_hash :: "comfy_prompt \<Rightarrow> string \<Rightarrow> string option" where
  "carried_hash g i =
     (case deref g i of
        None \<Rightarrow> None
      | Some n \<Rightarrow>
          if class_type n = ''CheckpointLoaderSimple'' then or_undefined (ckpt_hash n) else None)"

text \<open>The hash of the first node, in the order of the keys given, that carries one.\<close>

fun first_model_hash :: "comfy_prompt \<Rightarrow> string list \<Rightarrow> string option" where
  "first_model_hash g [] = None"
| "first_model_hash g (i # is) =
     (case carried_hash g i of Some h \<Rightarrow> Some h | None \<Rightarrow> first_model_hash g is)"

text \<open>
  The canonical sampler as the specification words it: the first sampler whose
  \<^verbatim>\<open>latent_image\<close> refers to a node with the type tag \<^verbatim>\<open>EmptyLatentImage\<close>, and the first
  sampler of the list when there is none.
\<close>

definition qualifies :: "comfy_prompt \<Rightarrow> comfy_inputs \<Rightarrow> bool" where
  "qualifies g x = (get_class_type g (get_prop x ''latent_image'') = Inr (Some ''EmptyLatentImage''))"

definition canonical_spec :: "comfy_prompt \<Rightarrow> comfy_inputs list \<Rightarrow> comfy_inputs option" where
  "canonical_spec g xs =
     (case find (qualifies g) xs of
        Some x \<Rightarrow> Some x
      | None \<Rightarrow> (case xs of [] \<Rightarrow> None | x # _ \<Rightarrow> Some x))"

text \<open>A sampler whose \<^verbatim>\<open>latent_image\<close> can be asked for its type tag without a throw.\<close>

definition has_latent_image :: "comfy_prompt \<Rightarrow> comfy_inputs \<Rightarrow> bool" where
  "has_latent_image g x = (get_class_type g (get_prop x ''latent_image'') \<noteq> Inl TypeError)"

section \<open>Example data\<close>

text \<open>A dual-encoder conditioning node whose \<^verbatim>\<open>text\<close> input is the empty string.\<close>

definition sdxl_node :: ComfyNode where
  "sdxl_node = \<lparr>inputs = [(''text'', VStr []), (''text_g'', VStr ''a cat'')],
     class_type = ''CLIPTextEncodeSDXL'', ckpt_hash = None, lora_hash = None\<rparr>"

definition sdxl_prompt :: comfy_prompt where
  "sdxl_prompt = [(''6'', sdxl_node)]"

text \<open>
  Conditioning nodes: plain text, text taken from another node, the two encoders, and a
  second encoder text that is the number \<open>0\<close>.
\<close>

definition text_plain :: ComfyNode where
  "text_plain = \<lparr>inputs = [(''text'', VStr ''a cat'')], class_type = ''CLIPTextEncode'',
     ckpt_hash = None, lora_hash = None\<rparr>"

definition text_linked :: ComfyNode where
  "text_linked = \<lparr>inputs = [(''text'', VNode ''6'')], class_type = ''CLIPTextEncode'',
     ckpt_hash = None, lora_hash = None\<rparr>"

definition dual_same :: ComfyNode where
  "dual_same = \<lparr>inputs = [(''text_g'', VStr ''a cat''), (''text_l'', VStr ''a cat'')],
     class_type = ''CLIPTextEncodeSDXL'', ckpt_hash = None, lora_hash = None\<rparr>"

definition dual_split :: ComfyNode where
  "dual_split = \<lparr>inputs = [(''text_g'', VStr ''a cat''), (''text_l'', VStr ''wide shot'')],
     class_type = ''CLIPTextEncodeSDXL'', ckpt_hash = None, lora_hash = None\<rparr>"

definition dual_zero :: ComfyNode where
  "dual_zero = \<lparr>inputs = [(''text_g'', VStr ''a cat''), (''text_l'', VNum 0)],
     class_type = ''CLIPTextEncodeSDXL'', ckpt_hash = None, lora_hash = None\<rparr>"

definition no_text :: ComfyNode where
  "no_text = \<lparr>inputs = [(''clip'', VNode ''6'')], class_type = ''CLIPSetLastLayer'',
     ckpt_hash = None, lora_hash = None\<rparr>"

definition text_prompt :: comfy_prompt where
  "text_prompt =
     [(''6'', text_plain), (''7'', text_linked), (''8'', dual_same), (''9'', dual_split),
      (''10'', no_text), (''12'', dual_zero)]"

text \<open>Two \<^verbatim>\<open>LoraLoader\<close> nodes, of strength \<open>0.5\<close> and \<open>0.0005\<close>.\<close>

definition lora_strong :: ComfyNode where
  "lora_strong = \<lparr>inputs = [(''lora_name'', VStr ''styles/detail.safetensors''),
       (''strength_model'', VNum (1 / 2)), (''strength_clip'', VNum 1)],
     class_type = ''LoraLoader'', ckpt_hash = None, lora_hash = Some ''9f8e7d''\<rparr>"

definition lora_weak :: ComfyNode where
  "lora_weak = \<lparr>inputs = [(''lora_name'', VStr ''styles/blur.safetensors''),
       (''strength_model'', VNum (5 / 10000)), (''strength_clip'', VNum 1)],
     class_type = ''LoraLoader'', ckpt_hash = None, lora_hash = Some ''112233''\<rparr>"

definition lora_prompt :: comfy_prompt where
  "lora_prompt = [(''10'', lora_strong), (''11'', lora_weak)]"

text \<open>Two \<^verbatim>\<open>CheckpointLoaderSimple\<close> nodes, each with a hash.\<close>

definition ckpt_first :: ComfyNode where
  "ckpt_first = \<lparr>inputs = [(''ckpt_name'', VStr ''sd.safetensors'')],
     class_type = ''CheckpointLoaderSimple'', ckpt_hash = Some ''abc123'', lora_hash = None\<rparr>"

definition ckpt_second :: ComfyNode where
  "ckpt_second = \<lparr>inputs = [(''ckpt_name'', VStr ''refiner.safetensors'')],
     class_type = ''CheckpointLoaderSimple'', ckpt_hash = Some ''fff999'', lora_hash = None\<rparr>"

definition ckpt_prompt :: comfy_prompt where
  "ckpt_prompt = [(''4'', ckpt_first), (''8'', ckpt_second)]"

text \<open>
  Exported metadata with two samplers: the first takes its latent image from a
  \<^verbatim>\<open>VAEEncode\<close> node, the second from an \<^verbatim>\<open>EmptyLatentImage\<close> node.
\<close>

definition two_samplers_text :: string where
  \<open>two_samplers_text = ''{"3":{"inputs":{"seed":7,"positive":["6",0],"negative":["6",0],"latent_image":["9",0]},"class_type":"KSampler"},"5":{"inputs":{"width":512,"height":768},"class_type":"EmptyLatentImage"},"6":{"inputs":{"text":"a cat"},"class_type":"CLIPTextEncode"},"9":{"inputs":{},"class_type":"VAEEncode"},"11":{"inputs":{"seed":42,"positive":["6",0],"negative":["6",0],"latent_image":["5",0]},"class_type":"KSampler"}}''\<close>

definition workflow_text :: string where
  \<open>workflow_text = ''{"last_node_id":11,"extra":{"ckpt_airs":["4384@128713"]}}''\<close>

definition two_samplers_exif :: exif where
  "two_samplers_exif = \<lparr>exif_prompt = Some two_samplers_text, exif_workflow = Some workflow_text\<rparr>"

text \<open>The same prompt with a workflow document that is \<^verbatim>\<open>null\<close>.\<close>

definition null_workflow_exif :: exif where
  "null_workflow_exif = \<lparr>exif_prompt = Some two_samplers_text, exif_workflow = Some ''null''\<rparr>"

text \<open>Exported metadata without a sampler.\<close>

definition no_sampler_text :: string where
  \<open>no_sampler_text = ''{"4":{"inputs":{"ckpt_name":"sd.safetensors"},"class_type":"CheckpointLoaderSimple"}}''\<close>

definition no_sampler_exif :: exif where
  "no_sampler_exif = \<lparr>exif_prompt = Some no_sampler_text, exif_workflow = Some ''{}''\<rparr>"

text \<open>What the platform of the examples decodes from the text of the two samplers.\<close>

definition sampler_first :: comfy_inputs where
  "sampler_first = [(''seed'', VNum 7), (''positive'', VNode ''6''), (''negative'', VNode ''6''),
     (''latent_image'', VNode ''9'')]"

definition sampler_second :: comfy_inputs where
  "sampler_second = [(''seed'', VNum 42), (''positive'', VNode ''6''), (''negative'', VNode ''6''),
     (''latent_image'', VNode ''5'')]"

definition two_samplers_prompt :: comfy_prompt where
  "two_samplers_prompt =
     [(''3'', \<lparr>inputs = [(''seed'', VNum 7), (''positive'', VArr [EStr ''6'', ENum 0]),
                 (''negative'', VArr [EStr ''6'', ENum 0]),
                 (''latent_image'', VArr [EStr ''9'', ENum 0])],
               class_type = ''KSampler'', ckpt_hash = None, lora_hash = None\<rparr>),
      (''5'', \<lparr>inputs = [(''width'', VNum 512), (''height'', VNum 768)],
               class_type = ''EmptyLatentImage'', ckpt_hash = None, lora_hash = None\<rparr>),
      (''6'', \<lparr>inputs = [(''text'', VStr ''a cat'')],
               class_type = ''CLIPTextEncode'', ckpt_hash = None, lora_hash = None\<rparr>),
      (''9'', \<lparr>inputs = [], class_type = ''VAEEncode'', ckpt_hash = None, lora_hash = None\<rparr>),
      (''11'', \<lparr>inputs = [(''seed'', VNum 42), (''positive'', VArr [EStr ''6'', ENum 0]),
                 (''negative'', VArr [EStr ''6'', ENum 0]),
                 (''latent_image'', VArr [EStr ''5'', ENum 0])],
               class_type = ''KSampler'', ckpt_hash = None, lora_hash = None\<rparr>)]"

text \<open>The state of the loop after the sweep over these nodes.\<close>

definition two_samplers_swept :: sweep where
  "two_samplers_swept =
     \<lparr>graph =
        [(''3'', \<lparr>inputs = sampler_first, class_type = ''KSampler'',
                  ckpt_hash = None, lora_hash = None\<rparr>),
         (''5'', \<lparr>inputs = [(''width'', VNum 512), (''height'', VNum 768)],
                  class_type = ''EmptyLatentImage'', ckpt_hash = None, lora_hash = None\<rparr>),
         (''6'', \<lparr>inputs = [(''text'', VStr ''a cat'')],
                  class_type = ''CLIPTextEncode'', ckpt_hash = None, lora_hash = None\<rparr>),
         (''9'', \<lparr>inputs = [], class_type = ''VAEEncode'', ckpt_hash = None, lora_hash = None\<rparr>),
         (''11'', \<lparr>inputs = sampler_second, class_type = ''KSampler'',
                   ckpt_hash = None, lora_hash = None\<rparr>)],
      samplerNodes = [sampler_first, sampler_second],
      models = [], upscalers = [], vaes = [], controlNets = [], additionalResources = [],
      hashes = []\<rparr>"

definition workflow_doc :: json where
  "workflow_doc =
     JObj [(''last_node_id'', JNum 11),
           (''extra'', JObj [(''ckpt_airs'', JArr [JStr ''4384@128713''])])]"

definition no_sampler_prompt :: comfy_prompt where
  "no_sampler_prompt =
     [(''4'', \<lparr>inputs = [(''ckpt_name'', VStr ''sd.safetensors'')],
               class_type = ''CheckpointLoaderSimple'', ckpt_hash = None, lora_hash = None\<rparr>)]"

text \<open>The prompt without a sampler together with a workflow text that does not decode.\<close>

definition bad_workflow_exif :: exif where
  "bad_workflow_exif = \<lparr>exif_prompt = Some no_sampler_text, exif_workflow = Some ''{''\<rparr>"








section \<open>Properties of the text helpers\<close>

subsection \<open>Sanitization\<close>

lemma replace_all_skip:
  "\<not> prefix pat (c # cs) \<Longrightarrow> replace_all pat rep (c # cs) = c # replace_all pat rep cs"
  by simp

lemma replace_all_hit:
  "pat \<noteq> [] \<Longrightarrow> prefix pat (c # cs) \<Longrightarrow>
   replace_all pat rep (c # cs) = rep @ replace_all pat rep (drop (length pat) (c # cs))"
  by simp

lemma sanitize_spec_skip:
  "\<not> prefix ''[NaN]'' (c # cs) \<Longrightarrow> \<not> prefix ''[Infinity]'' (c # cs) \<Longrightarrow>
   sanitize_spec (c # cs) = c # sanitize_spec cs"
  by (simp only: sanitize_spec.simps if_False)

lemma sanitize_spec_NaN:
  "prefix ''[NaN]'' (c # cs) \<Longrightarrow> sanitize_spec (c # cs) = ''[]'' @ sanitize_spec (drop 5 (c # cs))"
  by (simp only: sanitize_spec.simps if_True)

lemma sanitize_spec_Infinity:
  "\<not> prefix ''[NaN]'' (c # cs) \<Longrightarrow> prefix ''[Infinity]'' (c # cs) \<Longrightarrow>
   sanitize_spec (c # cs) = ''[]'' @ sanitize_spec (drop 10 (c # cs))"
  by (simp only: sanitize_spec.simps if_True if_False)

lemma token_cases:
  obtains (nan) "prefix ''[NaN]'' s"
    | (inf) "\<not> prefix ''[NaN]'' s" "prefix ''[Infinity]'' s"
    | (other) "\<not> prefix ''[NaN]'' s" "\<not> prefix ''[Infinity]'' s"
  by blast

lemma replace_all_absent: "\<not> occurs pat s \<Longrightarrow> replace_all pat rep s = s"
proof (induction s)
  case Nil
  then show ?case by simp
next
  case (Cons c cs)
  from Cons.prems have np: "\<not> prefix pat (c # cs)" and no: "\<not> occurs pat cs" by simp_all
  from Cons.IH[OF no] show ?case by (simp only: replace_all_skip[OF np])
qed

lemma prefix_ConsE:
  assumes "prefix (a # w) xs"
  obtains t where "xs = a # t" "prefix w t"
  using assms by (cases xs) auto

lemma replace_all_head:
  assumes "replace_all pat rep (c # cs) = a # t" "rep \<noteq> []" "a \<noteq> hd rep"
  shows "a = c \<and> t = replace_all pat rep cs"
proof (cases "pat \<noteq> [] \<and> prefix pat (c # cs)")
  case True
  then have "replace_all pat rep (c # cs) = rep @ replace_all pat rep (drop (length pat) (c # cs))"
    using replace_all_hit by blast
  with assms(1) have "hd (rep @ replace_all pat rep (drop (length pat) (c # cs))) = a"
    by (metis list.sel(1))
  with assms(2,3) show ?thesis by simp
next
  case False
  then have "replace_all pat rep (c # cs) = c # replace_all pat rep cs"
    by (simp only: replace_all.simps if_False)
  with assms(1) show ?thesis by simp
qed

lemma replace_all_prefix:
  "rep \<noteq> [] \<Longrightarrow> hd rep \<notin> set w \<Longrightarrow> prefix w (replace_all pat rep s) \<Longrightarrow> prefix w s"
proof (induction w arbitrary: s)
  case Nil
  then show ?case by simp
next
  case (Cons a w)
  from Cons.prems(3) obtain t where t: "replace_all pat rep s = a # t" "prefix w t"
    by (rule prefix_ConsE)
  then obtain c cs where s: "s = c # cs" by (cases s) auto
  from Cons.prems(2) have "a \<noteq> hd rep" "hd rep \<notin> set w" by auto
  with t(1) Cons.prems(1) have "a = c" "t = replace_all pat rep cs"
    unfolding s using replace_all_head by blast+
  with Cons.IH[of cs] t(2) s \<open>hd rep \<notin> set w\<close> Cons.prems(1) show ?case by simp
qed

lemma sanitize_spec_head:
  assumes eq: "sanitize_spec (c # cs) = a # t" and a: "a \<noteq> CHR ''[''"
  shows "a = c \<and> t = sanitize_spec cs"
proof (cases "c # cs" rule: token_cases)
  case nan
  from eq a show ?thesis unfolding sanitize_spec_NaN[OF nan] by simp
next
  case inf
  from eq a show ?thesis unfolding sanitize_spec_Infinity[OF inf] by simp
next
  case other
  from eq show ?thesis unfolding sanitize_spec_skip[OF other] by simp
qed

lemma sanitize_spec_prefix:
  "CHR ''['' \<notin> set w \<Longrightarrow> prefix w (sanitize_spec s) \<Longrightarrow> prefix w s"
proof (induction w arbitrary: s)
  case Nil
  then show ?case by simp
next
  case (Cons a w)
  from Cons.prems(2) obtain t where t: "sanitize_spec s = a # t" "prefix w t"
    by (rule prefix_ConsE)
  then obtain c cs where s: "s = c # cs" by (cases s) auto
  from Cons.prems(1) have "a \<noteq> CHR ''[''" "CHR ''['' \<notin> set w" by auto
  with t(1) have "a = c" "t = sanitize_spec cs"
    unfolding s using sanitize_spec_head by blast+
  with Cons.IH[of cs] t(2) s \<open>CHR ''['' \<notin> set w\<close> show ?case by simp
qed

lemma replace_NaN_keeps_Infinity:
  "replace_all ''[NaN]'' ''[]'' (''[Infinity]'' @ t) = ''[Infinity]'' @ replace_all ''[NaN]'' ''[]'' t"
  by simp

lemma replace_Infinity_brackets:
  "replace_all ''[Infinity]'' ''[]'' (''[]'' @ t) = ''[]'' @ replace_all ''[Infinity]'' ''[]'' t"
  by simp

lemma replace_Infinity_token:
  "replace_all ''[Infinity]'' ''[]'' (''[Infinity]'' @ t) = ''[]'' @ replace_all ''[Infinity]'' ''[]'' t"
  by simp

lemma prefix_Infinity_split: "prefix ''[Infinity]'' s \<Longrightarrow> s = ''[Infinity]'' @ drop 10 s"
  by (auto simp: prefix_def)

lemma prefix_NaN_split: "prefix ''[NaN]'' s \<Longrightarrow> s = ''[NaN]'' @ drop 5 s"
  by (auto simp: prefix_def)

lemma replace_NaN_token:
  "replace_all ''[NaN]'' ''[]'' (''[NaN]'' @ t) = ''[]'' @ replace_all ''[NaN]'' ''[]'' t"
  by simp

lemma cleanBadJson_single_scan: "cleanBadJson s = sanitize_spec s"
proof (induction s rule: sanitize_spec.induct)
  case 1
  then show ?case by (simp add: cleanBadJson_def)
next
  case (2 c cs)
  let ?s = "c # cs"
  show ?case
  proof (cases ?s rule: token_cases)
    case nan
    from nan have eq: "?s = ''[NaN]'' @ drop 5 ?s" by (rule prefix_NaN_split)
    have "replace_all ''[NaN]'' ''[]'' ?s = ''[]'' @ replace_all ''[NaN]'' ''[]'' (drop 5 ?s)"
      by (subst eq) (rule replace_NaN_token)
    then have "cleanBadJson ?s = ''[]'' @ cleanBadJson (drop 5 ?s)"
      unfolding cleanBadJson_def by (simp only: replace_Infinity_brackets)
    also have "cleanBadJson (drop 5 ?s) = sanitize_spec (drop 5 ?s)"
      using 2(1)[OF nan] .
    finally show ?thesis by (simp only: sanitize_spec_NaN[OF nan])
  next
    case inf
    from inf(2) have eq: "?s = ''[Infinity]'' @ drop 10 ?s" by (rule prefix_Infinity_split)
    have "replace_all ''[NaN]'' ''[]'' ?s = ''[Infinity]'' @ replace_all ''[NaN]'' ''[]'' (drop 10 ?s)"
      by (subst eq) (rule replace_NaN_keeps_Infinity)
    then have "cleanBadJson ?s = ''[]'' @ cleanBadJson (drop 10 ?s)"
      unfolding cleanBadJson_def by (simp only: replace_Infinity_token)
    also have "cleanBadJson (drop 10 ?s) = sanitize_spec (drop 10 ?s)"
      using 2(2)[OF inf] .
    finally show ?thesis by (simp only: sanitize_spec_Infinity[OF inf])
  next
    case other
    have r1: "replace_all ''[NaN]'' ''[]'' ?s = c # replace_all ''[NaN]'' ''[]'' cs"
      using other(1) by (rule replace_all_skip)
    have "\<not> prefix ''[Infinity]'' (c # replace_all ''[NaN]'' ''[]'' cs)"
    proof
      assume p: "prefix ''[Infinity]'' (c # replace_all ''[NaN]'' ''[]'' cs)"
      from p[unfolded Cons_prefix_Cons]
      have c: "c = CHR ''[''" and r: "prefix ''Infinity]'' (replace_all ''[NaN]'' ''[]'' cs)"
        by blast+
      have "prefix ''Infinity]'' cs"
        by (rule replace_all_prefix[OF _ _ r]) simp_all
      then have "prefix ''[Infinity]'' (CHR ''['' # cs)"
        unfolding Cons_prefix_Cons by blast
      with other(2) show False unfolding c by contradiction
    qed
    then have "cleanBadJson ?s = c # cleanBadJson cs"
      unfolding cleanBadJson_def r1 by (rule replace_all_skip)
    also have "cleanBadJson cs = sanitize_spec cs" using 2(3)[OF other] .
    finally show ?thesis by (simp only: sanitize_spec_skip[OF other])
  qed
qed

lemma sanitize_spec_no_token_prefix:
  "\<not> prefix ''[NaN]'' (sanitize_spec s) \<and> \<not> prefix ''[Infinity]'' (sanitize_spec s)"
proof (cases s)
  case Nil
  then show ?thesis by simp
next
  case (Cons c cs)
  show ?thesis
  proof (cases "c # cs" rule: token_cases)
    case nan
    show ?thesis unfolding Cons sanitize_spec_NaN[OF nan] by simp
  next
    case inf
    show ?thesis unfolding Cons sanitize_spec_Infinity[OF inf] by simp
  next
    case other
    have n: "prefix ''NaN]'' cs" if "prefix ''NaN]'' (sanitize_spec cs)"
      by (rule sanitize_spec_prefix[OF _ that]) simp
    have i: "prefix ''Infinity]'' cs" if "prefix ''Infinity]'' (sanitize_spec cs)"
      by (rule sanitize_spec_prefix[OF _ that]) simp
    have "\<not> prefix ''[NaN]'' (c # sanitize_spec cs)"
      using other(1) n unfolding Cons_prefix_Cons by blast
    moreover have "\<not> prefix ''[Infinity]'' (c # sanitize_spec cs)"
      using other(2) i unfolding Cons_prefix_Cons by blast
    ultimately show ?thesis unfolding Cons sanitize_spec_skip[OF other] by blast
  qed
qed

lemma occurs_Cons: "occurs pat (c # cs) = (prefix pat (c # cs) \<or> occurs pat cs)"
  by simp

lemma occurs_brackets:
  "\<not> occurs ''[NaN]'' t \<and> \<not> occurs ''[Infinity]'' t \<Longrightarrow>
   \<not> occurs ''[NaN]'' (''[]'' @ t) \<and> \<not> occurs ''[Infinity]'' (''[]'' @ t)"
  by simp

lemma sanitize_spec_token_free:
  "\<not> occurs ''[NaN]'' (sanitize_spec s) \<and> \<not> occurs ''[Infinity]'' (sanitize_spec s)"
proof (induction s rule: sanitize_spec.induct)
  case 1
  then show ?case by simp
next
  case (2 c cs)
  note np = sanitize_spec_no_token_prefix[of "c # cs"]
  show ?case
  proof (cases "c # cs" rule: token_cases)
    case nan
    from occurs_brackets[OF 2(1)[OF nan]] show ?thesis
      unfolding sanitize_spec_NaN[OF nan] .
  next
    case inf
    from occurs_brackets[OF 2(2)[OF inf]] show ?thesis
      unfolding sanitize_spec_Infinity[OF inf] .
  next
    case other
    from np 2(3)[OF other] show ?thesis
      unfolding sanitize_spec_skip[OF other] occurs_Cons by blast
  qed
qed

text \<open>
  Claim C9 (sanitization is conservative). \<open>cleanBadJson\<close>, two global replacements one
  after the other, is the single scan \<open>sanitize_spec\<close> that rewrites each token \<^verbatim>\<open>[NaN]\<close>
  and \<^verbatim>\<open>[Infinity]\<close> to \<^verbatim>\<open>[]\<close> and copies every other character; its result holds
  neither token; a text that holds neither token is returned unchanged, so \<^verbatim>\<open>NaN\<close> and
  \<^verbatim>\<open>Infinity\<close> outside brackets stay as they are.
\<close>

theorem cleanBadJson_conservative:
  "cleanBadJson s = sanitize_spec s
   \<and> \<not> occurs ''[NaN]'' (cleanBadJson s)
   \<and> \<not> occurs ''[Infinity]'' (cleanBadJson s)
   \<and> (\<not> occurs ''[NaN]'' s \<and> \<not> occurs ''[Infinity]'' s \<longrightarrow> cleanBadJson s = s)"
proof -
  have "cleanBadJson s = sanitize_spec s" by (rule cleanBadJson_single_scan)
  moreover have "\<not> occurs ''[NaN]'' (cleanBadJson s)" "\<not> occurs ''[Infinity]'' (cleanBadJson s)"
    using sanitize_spec_token_free[of s] by (simp_all add: cleanBadJson_single_scan)
  moreover have "cleanBadJson s = s"
    if "\<not> occurs ''[NaN]'' s" "\<not> occurs ''[Infinity]'' s"
    using that by (simp add: cleanBadJson_def replace_all_absent)
  ultimately show ?thesis by blast
qed

theorem cleanBadJson_conservative_witness:
  "\<not> occurs ''[NaN]'' ''{x: NaN, y: -Infinity, z: [ NaN ]}''
   \<and> \<not> occurs ''[Infinity]'' ''{x: NaN, y: -Infinity, z: [ NaN ]}''
   \<and> cleanBadJson ''{x: NaN, y: -Infinity, z: [ NaN ]}'' = ''{x: NaN, y: -Infinity, z: [ NaN ]}''"
  using cleanBadJson_conservative [of "''{x: NaN, y: -Infinity, z: [ NaN ]}''"]
  by simp

subsection \<open>File names\<close>

lemma split_not_Nil: "split sep s \<noteq> []"
  by (induction s) (auto split: list.splits)

lemma split_single: "sep \<notin> set seg \<Longrightarrow> split sep seg = [seg]"
  by (induction seg) (auto split: list.splits)

lemma split_append_sep_aux:
  "\<exists>p ps. split sep (xs @ sep # ys) = p # ps \<and> ps \<noteq> [] \<and> last ps = last (split sep ys)"
proof (induction xs)
  case Nil
  then show ?case by (simp add: split_not_Nil)
next
  case (Cons x xs)
  then obtain p ps where "split sep (xs @ sep # ys) = p # ps" "ps \<noteq> []"
    "last ps = last (split sep ys)" by blast
  then show ?case by simp
qed

lemma split_append_sep:
  "last (split sep (xs @ sep # ys)) = last (split sep ys)"
  using split_append_sep_aux[of sep xs ys] by auto

lemma last_segment: "parts \<noteq> [] \<Longrightarrow> parts ! (length parts - Suc 0) = last parts"
  by (simp add: last_conv_nth)

lemma split_segments_free: "\<forall>p \<in> set (split sep s). sep \<notin> set p \<and> set p \<subseteq> set s"
  by (induction s) (auto split: list.splits)

lemma replace_sep_no_bsl: "bsl \<notin> set (replace_sep s)"
  by (induction s rule: replace_sep.induct) (auto simp: bsl_def)

lemma replace_sep_id: "bsl \<notin> set s \<Longrightarrow> replace_sep s = s"
  by (induction s) auto

lemma strip_ext_subset: "set (strip_ext s) \<subseteq> set s"
  by (induction s) auto

lemma strip_ext_no_dot: "CHR ''.'' \<notin> set s \<Longrightarrow> strip_ext s = s"
  by (induction s) auto

lemma strip_ext_last:
  "ext \<noteq> [] \<Longrightarrow> CHR ''.'' \<notin> set ext \<Longrightarrow> CHR ''/'' \<notin> set ext \<Longrightarrow>
   strip_ext (base @ CHR ''.'' # ext) = base"
proof (induction base)
  case Nil
  then show ?case by (auto simp: list_all_iff)
next
  case (Cons b base)
  then show ?case by (auto simp: list_all_iff)
qed

lemma replace_sep_slash:
  "bsl \<notin> set seg \<Longrightarrow> \<exists>pre. replace_sep (d @ CHR ''/'' # seg) = pre @ CHR ''/'' # seg"
proof (induction "d @ CHR ''/'' # seg" arbitrary: d rule: replace_sep.induct)
  case 1
  then show ?case by simp
next
  case (2 c cs)
  show ?case
  proof (cases d)
    case Nil
    with 2 show ?thesis by (auto simp: replace_sep_id bsl_def)
  next
    case (Cons x d')
    with 2(3) have c: "c = x" and cs: "cs = d' @ CHR ''/'' # seg" by simp_all
    show ?thesis
    proof (cases "c = bsl")
      case False
      from 2(2)[OF False cs 2(4)] obtain pre where "replace_sep cs = pre @ CHR ''/'' # seg" unfolding cs by blast
      with False have "replace_sep (c # cs) = (c # pre) @ CHR ''/'' # seg" by simp
      with 2(3) show ?thesis by metis
    next
      case True
      let ?k = "length (takeWhile (\<lambda>x. x = bsl) cs)"
      let ?n = "2 * (?k div 2)"
      have "?k \<le> length d'"
        unfolding cs by (simp add: takeWhile_append bsl_def length_takeWhile_le)
      then have n: "?n \<le> length d'" by simp
      then have dr: "drop ?n cs = drop ?n d' @ CHR ''/'' # seg"
        unfolding cs by simp
      from 2(1)[OF True dr 2(4)] obtain pre where "replace_sep (drop ?n cs) = pre @ CHR ''/'' # seg" unfolding dr by blast
      with True have "replace_sep (c # cs) = (CHR ''/'' # pre) @ CHR ''/'' # seg" by simp
      with 2(3) show ?thesis by metis
    qed
  qed
qed

lemma replace_sep_bsl:
  "bsl \<notin> set seg \<Longrightarrow> \<exists>pre. replace_sep (d @ bsl # seg) = pre @ CHR ''/'' # seg"
proof (induction "d @ bsl # seg" arbitrary: d rule: replace_sep.induct)
  case 1
  then show ?case by simp
next
  case (2 c cs)
  have seg0: "takeWhile (\<lambda>x. x = bsl) seg = []"
    using 2(4) by (cases seg) auto
  show ?case
  proof (cases d)
    case Nil
    with 2(3) have "c = bsl" "cs = seg" by simp_all
    then have "replace_sep (c # cs) = [] @ CHR ''/'' # seg"
      using 2(4) seg0 by (simp add: replace_sep_id)
    with 2(3) show ?thesis by metis
  next
    case (Cons x d')
    with 2(3) have c: "c = x" and cs: "cs = d' @ bsl # seg" by simp_all
    show ?thesis
    proof (cases "c = bsl")
      case False
      from 2(2)[OF False cs 2(4)] obtain pre where "replace_sep cs = pre @ CHR ''/'' # seg" unfolding cs by blast
      with False have "replace_sep (c # cs) = (c # pre) @ CHR ''/'' # seg" by simp
      with 2(3) show ?thesis by metis
    next
      case True
      let ?k = "length (takeWhile (\<lambda>x. x = bsl) cs)"
      let ?n = "2 * (?k div 2)"
      have k: "?k \<le> length d' + 1"
        unfolding cs by (auto simp: takeWhile_append seg0 intro: le_trans[OF length_takeWhile_le])
      show ?thesis
      proof (cases "?n \<le> length d'")
        case True': True
        then have dr: "drop ?n cs = drop ?n d' @ bsl # seg"
          unfolding cs by simp
        from 2(1)[OF True dr 2(4)] obtain pre where "replace_sep (drop ?n cs) = pre @ CHR ''/'' # seg" unfolding dr by blast
        with True have "replace_sep (c # cs) = (CHR ''/'' # pre) @ CHR ''/'' # seg" by simp
        with 2(3) show ?thesis by metis
      next
        case False
        with k have "?n = length d' + 1" by presburger
        then have "drop ?n cs = seg" unfolding cs by simp
        with True have "replace_sep (c # cs) = [] @ CHR ''/'' # seg"
          using 2(4) by (simp add: replace_sep_id)
        with 2(3) show ?thesis by metis
      qed
    qed
  qed
qed

lemma modelFileName_segment:
  assumes "CHR ''/'' \<notin> set seg" "bsl \<notin> set seg"
  shows "modelFileName (d @ CHR ''/'' # seg) = strip_ext seg"
    and "modelFileName (d @ bsl # seg) = strip_ext seg"
    and "modelFileName seg = strip_ext seg"
proof -
  from replace_sep_slash[OF assms(2), of d] obtain pre
    where "replace_sep (d @ CHR ''/'' # seg) = pre @ CHR ''/'' # seg" by blast
  then show "modelFileName (d @ CHR ''/'' # seg) = strip_ext seg"
    using assms(1)
    by (simp add: modelFileName_def Let_def last_segment split_not_Nil split_append_sep split_single)
  from replace_sep_bsl[OF assms(2), of d] obtain pre
    where "replace_sep (d @ bsl # seg) = pre @ CHR ''/'' # seg" by blast
  then show "modelFileName (d @ bsl # seg) = strip_ext seg"
    using assms(1)
    by (simp add: modelFileName_def Let_def last_segment split_not_Nil split_append_sep split_single)
  show "modelFileName seg = strip_ext seg"
    using assms
    by (simp add: modelFileName_def Let_def replace_sep_id split_single)
qed

lemma modelFileName_no_separator:
  "CHR ''/'' \<notin> set (modelFileName nm) \<and> bsl \<notin> set (modelFileName nm)"
proof -
  let ?parts = "split (CHR ''/'') (replace_sep nm)"
  have "last ?parts \<in> set ?parts" by (simp add: split_not_Nil)
  then have "CHR ''/'' \<notin> set (last ?parts)" "set (last ?parts) \<subseteq> set (replace_sep nm)"
    using split_segments_free[of "CHR ''/''" "replace_sep nm"] by blast+
  moreover have "bsl \<notin> set (replace_sep nm)" by (rule replace_sep_no_bsl)
  ultimately show ?thesis
    using strip_ext_subset[of "last ?parts"]
    by (auto simp: modelFileName_def Let_def last_segment split_not_Nil)
qed

text \<open>
  Claim C6 (file-name normalization). The three examples of the specification, the first one
  on the text \<^verbatim>\<open>A\B\model.safetensors\<close> with single backslashes, and the general behaviour
  behind them: whatever precedes the last separator, slash or backslash, is dropped; an
  extension is cut at the last dot only; a segment without a dot is returned as it is.
\<close>

theorem modelFileName_normalises:
  "modelFileName (''A'' @ [bsl] @ ''B'' @ [bsl] @ ''model.safetensors'') = ''model''
   \<and> modelFileName ''dir/name.v2.ckpt'' = ''name.v2''
   \<and> modelFileName ''plain'' = ''plain''
   \<and> (CHR ''/'' \<notin> set seg \<and> bsl \<notin> set seg \<longrightarrow>
        modelFileName (d @ CHR ''/'' # seg) = strip_ext seg
        \<and> modelFileName (d @ bsl # seg) = strip_ext seg
        \<and> modelFileName seg = strip_ext seg)
   \<and> (ext \<noteq> [] \<and> CHR ''.'' \<notin> set ext \<and> CHR ''/'' \<notin> set ext \<longrightarrow>
        strip_ext (base @ CHR ''.'' # ext) = base)
   \<and> (CHR ''.'' \<notin> set seg \<longrightarrow> strip_ext seg = seg)"
proof -
  have "modelFileName (''A'' @ [bsl] @ ''B'' @ [bsl] @ ''model.safetensors'') = ''model''"
    by (simp add: modelFileName_def bsl_def)
  moreover have "modelFileName ''dir/name.v2.ckpt'' = ''name.v2''"
    by (simp add: modelFileName_def bsl_def)
  moreover have "modelFileName ''plain'' = ''plain''"
    by (simp add: modelFileName_def bsl_def)
  ultimately show ?thesis
    using modelFileName_segment(1,2)[of seg d] modelFileName_segment(3)[of seg]
      strip_ext_last[of ext base] strip_ext_no_dot[of seg]
    by blast
qed

theorem modelFileName_normalises_witness:
  "CHR ''/'' \<notin> set ''name.v2.ckpt'' \<and> bsl \<notin> set ''name.v2.ckpt''
   \<and> ''ckpt'' \<noteq> [] \<and> CHR ''.'' \<notin> set ''ckpt'' \<and> CHR ''/'' \<notin> set ''ckpt''
   \<and> modelFileName (''sub/dir'' @ bsl # ''name.v2.ckpt'') = ''name.v2''
   \<and> modelFileName (''sub/dir'' @ CHR ''/'' # ''name.v2.ckpt'') = ''name.v2''"
  using modelFileName_normalises [where seg = "''name.v2.ckpt''" and d = "''sub/dir''"
      and ext = "''ckpt''" and base = "''name.v2''"]
  by (simp add: bsl_def)

subsection \<open>The capability check\<close>

text \<open>
  Claim C8 (capability check). The value \<open>canParse\<close> returns is truthy, which is how its
  caller reads it, exactly when the input carries a non-empty \<^verbatim>\<open>prompt\<close> field and a
  non-empty \<^verbatim>\<open>workflow\<close> field.
\<close>

theorem canParse_iff:
  "truthy_str (canParse e) =
     ((\<exists>p. exif_prompt e = Some p \<and> p \<noteq> []) \<and> (\<exists>w. exif_workflow e = Some w \<and> w \<noteq> []))"
  by (cases "exif_prompt e"; cases "exif_workflow e") (auto simp: canParse_def)

section \<open>Properties of the sweep and of the text extraction\<close>

subsection \<open>Prompt text\<close>

lemma getPromptText_node:
  "deref g i = Some n \<Longrightarrow>
   getPromptText (Suc d) P g (VNode i) =
     (let text = get_prop (inputs n) ''text'';
          text_g = get_prop (inputs n) ''text_g'';
          text_l = get_prop (inputs n) ''text_l''
      in if truthy g text \<and> is_string text then Inr text
         else if truthy g text \<and> has_class_type g text then getPromptText d P g text
         else if truthy g text_g then
           (if \<not> truthy g text_l \<or> strict_eq text_l text_g then Inr text_g
            else Inr (VStr (to_string P text_g @ '', '' @ to_string P text_l)))
         else Inr (VStr []))"
  by (simp add: opt_prop_def Let_def)

lemma truthy_string_iff: "truthy g v \<and> is_string v \<longleftrightarrow> (\<exists>t. v = VStr t \<and> t \<noteq> [])"
  by (cases v) auto

lemma truthy_node_iff: "truthy g v \<and> has_class_type g v \<longleftrightarrow> (\<exists>j. v = VNode j \<and> deref g j \<noteq> None)"
  by (cases v) auto

text \<open>
  Claim C7, amended (prompt text extraction). For a conditioning node \<open>n\<close> under key \<open>i\<close>:
  a \<^verbatim>\<open>text\<close> input that is a string and not empty is returned; a \<^verbatim>\<open>text\<close> input that is a
  node makes the call recurse into that node; when \<^verbatim>\<open>text\<close> is neither (the empty string
  included) and \<^verbatim>\<open>text_g\<close> is truthy, the result is \<^verbatim>\<open>text_g\<close> alone if \<^verbatim>\<open>text_l\<close> is
  falsy (absent, the empty string or the number \<open>0\<close>) or strictly equal to \<^verbatim>\<open>text_g\<close>, and
  otherwise the string forms of the two joined by a comma and a blank; in every other case
  the result is the empty string. None of these cases throws.
\<close>

theorem getPromptText_cases:
  assumes "deref g i = Some n"
  shows "(get_prop (inputs n) ''text'' = VStr t \<and> t \<noteq> [] \<longrightarrow>
            getPromptText (Suc d) P g (VNode i) = Inr (VStr t))
    \<and> (get_prop (inputs n) ''text'' = VNode j \<and> deref g j \<noteq> None \<longrightarrow>
            getPromptText (Suc d) P g (VNode i) = getPromptText d P g (VNode j))
    \<and> (\<not> (truthy g (get_prop (inputs n) ''text'') \<and> is_string (get_prop (inputs n) ''text''))
        \<and> \<not> (truthy g (get_prop (inputs n) ''text'') \<and> has_class_type g (get_prop (inputs n) ''text''))
        \<and> truthy g (get_prop (inputs n) ''text_g'') \<longrightarrow>
            getPromptText (Suc d) P g (VNode i) =
              (if \<not> truthy g (get_prop (inputs n) ''text_l'')
                  \<or> strict_eq (get_prop (inputs n) ''text_l'') (get_prop (inputs n) ''text_g'')
               then Inr (get_prop (inputs n) ''text_g'')
               else Inr (VStr (to_string P (get_prop (inputs n) ''text_g'') @ '', ''
                               @ to_string P (get_prop (inputs n) ''text_l'')))))
    \<and> (\<not> (truthy g (get_prop (inputs n) ''text'') \<and> is_string (get_prop (inputs n) ''text''))
        \<and> \<not> (truthy g (get_prop (inputs n) ''text'') \<and> has_class_type g (get_prop (inputs n) ''text''))
        \<and> \<not> truthy g (get_prop (inputs n) ''text_g'') \<longrightarrow>
            getPromptText (Suc d) P g (VNode i) = Inr (VStr []))
    \<and> (truthy g (get_prop (inputs n) ''text'') \<and> is_string (get_prop (inputs n) ''text'')
          \<longleftrightarrow> (\<exists>u. get_prop (inputs n) ''text'' = VStr u \<and> u \<noteq> []))
    \<and> (truthy g (get_prop (inputs n) ''text'') \<and> has_class_type g (get_prop (inputs n) ''text'')
          \<longleftrightarrow> (\<exists>k. get_prop (inputs n) ''text'' = VNode k \<and> deref g k \<noteq> None))"
  unfolding getPromptText_node[OF assms] Let_def truthy_string_iff truthy_node_iff
  by auto

theorem getPromptText_cases_witness:
  "deref text_prompt ''6'' = Some text_plain
   \<and> getPromptText 1 example_platform text_prompt (VNode ''6'') = Inr (VStr ''a cat'')
   \<and> getPromptText 2 example_platform text_prompt (VNode ''7'')
       = getPromptText 1 example_platform text_prompt (VNode ''6'')
   \<and> getPromptText 1 example_platform text_prompt (VNode ''8'') = Inr (VStr ''a cat'')
   \<and> getPromptText 1 example_platform text_prompt (VNode ''9'') = Inr (VStr ''a cat, wide shot'')
   \<and> getPromptText 1 example_platform text_prompt (VNode ''10'') = Inr (VStr [])
   \<and> get_prop (inputs dual_zero) ''text_l'' = VNum 0
   \<and> getPromptText 1 example_platform text_prompt (VNode ''12'') = Inr (VStr ''a cat'')"
  using getPromptText_cases [where g = text_prompt and i = "''6''" and n = text_plain
      and t = "''a cat''" and d = 0 and P = example_platform]
    getPromptText_cases [where g = text_prompt and i = "''7''" and n = text_linked
      and d = 1 and P = example_platform and j = "''6''"]
    getPromptText_cases [where g = text_prompt and i = "''8''" and n = dual_same
      and d = 0 and P = example_platform]
    getPromptText_cases [where g = text_prompt and i = "''9''" and n = dual_split
      and d = 0 and P = example_platform]
    getPromptText_cases [where g = text_prompt and i = "''10''" and n = no_text
      and d = 0 and P = example_platform]
    getPromptText_cases [where g = text_prompt and i = "''12''" and n = dual_zero
      and d = 0 and P = example_platform]
  by (simp add: text_prompt_def text_plain_def text_linked_def dual_same_def dual_split_def
      dual_zero_def no_text_def deref_def get_prop_def opt_prop_def eval_nat_numeral)

text \<open>
  The claim as stated fails where \<^verbatim>\<open>text\<close> is the empty string and \<^verbatim>\<open>text_g\<close> holds a text:
  the \<^verbatim>\<open>text\<close> input is a plain string, and the result is not that string but \<^verbatim>\<open>text_g\<close>.
\<close>

theorem getPromptText_empty_text_counterexample:
  "deref sdxl_prompt ''6'' = Some sdxl_node
   \<and> get_prop (inputs sdxl_node) ''text'' = VStr []
   \<and> getPromptText 1 example_platform sdxl_prompt (VNode ''6'') = Inr (VStr ''a cat'')
   \<and> getPromptText 1 example_platform sdxl_prompt (VNode ''6'')
       \<noteq> Inr (get_prop (inputs sdxl_node) ''text'')"
  by (simp add: sdxl_prompt_def sdxl_node_def deref_def get_prop_def opt_prop_def)

subsection \<open>The loader nodes\<close>

lemma resolve_simps [simp]:
  "resolve P g VUndefined = VUndefined"
  "resolve P g (VNum x) = VNum x"
  "resolve P g (VStr t) = VStr t"
  "resolve P g (VNode j) = VNode j"
  by (simp_all add: resolve_def)

lemma get_prop_resolve_inputs:
  "get_prop (resolve_inputs P g ins) k = resolve P g (get_prop ins k)"
  by (induction ins) (auto simp: get_prop_def resolve_inputs_def)

lemma deref_set_node:
  "deref (set_node g i n) j = (if j = i \<and> deref g i \<noteq> None then Some n else deref g j)"
  by (induction g) (auto simp: deref_def set_node_def)

lemma keys_set_node: "map fst (set_node g i n) = map fst g"
  by (induction g) (auto simp: set_node_def)

lemma near_zero_number: "near_zero P (VNum x) = (\<bar>x\<bar> < 1 / 1000)"
  by (auto simp: near_zero_def)

lemma visit_of_LoraLoader:
  assumes "deref (graph s) i = Some n" "class_type n = ''LoraLoader''"
  shows "visit P i s =
     visit_LoraLoader P (n\<lparr>inputs := resolve_inputs P (graph s) (inputs n)\<rparr>)
       (s\<lparr>graph := set_node (graph s) i (n\<lparr>inputs := resolve_inputs P (graph s) (inputs n)\<rparr>)\<rparr>)"
  using assms by (simp add: visit_def Let_def)

text \<open>
  Claim C5 (LoRA strength threshold). The visit of a \<^verbatim>\<open>LoraLoader\<close> node \<open>n\<close> under key \<open>i\<close>.
  When its \<^verbatim>\<open>strength_model\<close> is nearer to zero than \<open>0.001\<close>, the visit changes nothing
  but the resolved inputs of the node: no resource reference, no hash. Otherwise, with a
  string as \<^verbatim>\<open>lora_name\<close>, it appends exactly one resource reference, with the base file
  name, the type \<^verbatim>\<open>lora\<close>, the two strengths and the hash, and it records the hash under
  \<^verbatim>\<open>lora:<name>\<close>; a hash is present when \<^verbatim>\<open>lora_hash\<close> is a string that is not empty
  (\<open>or_undefined\<close>). For a number the test is \<open>\<bar>x\<bar> < 1/1000\<close>.
\<close>

theorem LoraLoader_threshold:
  assumes "deref (graph s) i = Some n" "class_type n = ''LoraLoader''"
  shows "(near_zero P (resolve P (graph s) (get_prop (inputs n) ''strength_model'')) \<longrightarrow>
            visit P i s =
              Inr (s\<lparr>graph := set_node (graph s) i
                      (n\<lparr>inputs := resolve_inputs P (graph s) (inputs n)\<rparr>)\<rparr>))
    \<and> (\<not> near_zero P (resolve P (graph s) (get_prop (inputs n) ''strength_model''))
         \<and> get_prop (inputs n) ''lora_name'' = VStr nm \<longrightarrow>
            visit P i s =
              Inr (s\<lparr>graph := set_node (graph s) i
                      (n\<lparr>inputs := resolve_inputs P (graph s) (inputs n)\<rparr>),
                    hashes :=
                      (case or_undefined (lora_hash n) of
                         None \<Rightarrow> hashes s
                       | Some h \<Rightarrow> AList.update (''lora:'' @ modelFileName nm) h (hashes s)),
                    additionalResources := additionalResources s @
                      [\<lparr>name = modelFileName nm, type = ''lora'',
                        weight = resolve P (graph s) (get_prop (inputs n) ''strength_model''),
                        weightClip = resolve P (graph s) (get_prop (inputs n) ''strength_clip''),
                        hash = or_undefined (lora_hash n)\<rparr>]\<rparr>))
    \<and> near_zero P (VNum x) = (\<bar>x\<bar> < 1 / 1000)"
  unfolding visit_of_LoraLoader[OF assms]
  by (auto simp: visit_LoraLoader_def Let_def get_prop_resolve_inputs near_zero_number
      split: option.splits)

theorem LoraLoader_threshold_witness:
  "deref (graph (initial lora_prompt)) ''10'' = Some lora_strong
   \<and> class_type lora_strong = ''LoraLoader''
   \<and> \<not> near_zero example_platform (VNum (1 / 2))
   \<and> visit example_platform ''10'' (initial lora_prompt) =
       Inr ((initial lora_prompt)
             \<lparr>hashes := [(''lora:detail'', ''9f8e7d'')],
              additionalResources :=
                [\<lparr>name = ''detail'', type = ''lora'', weight = VNum (1 / 2),
                  weightClip = VNum 1, hash = Some ''9f8e7d''\<rparr>]\<rparr>)
   \<and> deref (graph (initial lora_prompt)) ''11'' = Some lora_weak
   \<and> class_type lora_weak = ''LoraLoader''
   \<and> near_zero example_platform (VNum (5 / 10000))
   \<and> visit example_platform ''11'' (initial lora_prompt) = Inr (initial lora_prompt)"
  using LoraLoader_threshold [of "initial lora_prompt" "''10''" lora_strong example_platform
      "''styles/detail.safetensors''" "1 / 2"]
    LoraLoader_threshold [of "initial lora_prompt" "''11''" lora_weak example_platform
      "''styles/blur.safetensors''" "5 / 10000"]
  by (simp add: lora_prompt_def lora_strong_def lora_weak_def initial_def deref_def
      resolve_inputs_def get_prop_def or_undefined_def modelFileName_def set_node_def bsl_def)

lemma carried_hash_set_node:
  "class_type n' = class_type n \<Longrightarrow> ckpt_hash n' = ckpt_hash n \<Longrightarrow> deref g i = Some n \<Longrightarrow>
   carried_hash (set_node g i n') j = carried_hash g j"
  by (auto simp: carried_hash_def deref_set_node)

lemma lora_key_not_model: "''lora:'' @ t \<noteq> ''model''"
  by simp

lemma visit_KSamplerAdvanced_frame:
  "visit_KSamplerAdvanced n s = Inr s' \<Longrightarrow> graph s' = graph s \<and> hashes s' = hashes s"
  by (auto simp: visit_KSamplerAdvanced_def Let_def split: sum.splits)

lemma visit_LoraLoader_frame:
  "visit_LoraLoader P n s = Inr s' \<Longrightarrow>
   graph s' = graph s \<and> map_of (hashes s') ''model'' = map_of (hashes s) ''model''"
  by (auto simp: visit_LoraLoader_def Let_def update_conv' split: sum.splits if_splits option.splits)

lemma visit_CheckpointLoaderSimple_hash:
  "visit_CheckpointLoaderSimple n s = Inr s' \<Longrightarrow>
   graph s' = graph s \<and>
   map_of (hashes s') ''model'' =
     (if truthy_str (map_of (hashes s) ''model'') then map_of (hashes s) ''model''
      else (case or_undefined (ckpt_hash n) of
              None \<Rightarrow> map_of (hashes s) ''model''
            | Some h \<Rightarrow> Some h))"
  by (auto simp: visit_CheckpointLoaderSimple_def Let_def update_conv'
      split: sum.splits if_splits option.splits)

lemma visit_model_hash:
  assumes "visit P i s = Inr s'"
  shows "map_of (hashes s') ''model'' =
     (if truthy_str (map_of (hashes s) ''model'') then map_of (hashes s) ''model''
      else (case carried_hash (graph s) i of
              None \<Rightarrow> map_of (hashes s) ''model''
            | Some h \<Rightarrow> Some h))"
    and "carried_hash (graph s') j = carried_hash (graph s) j"
proof -
  show "map_of (hashes s') ''model'' =
     (if truthy_str (map_of (hashes s) ''model'') then map_of (hashes s) ''model''
      else (case carried_hash (graph s) i of
              None \<Rightarrow> map_of (hashes s) ''model''
            | Some h \<Rightarrow> Some h))"
  proof (cases "deref (graph s) i")
    case None
    with assms show ?thesis by (simp add: visit_def carried_hash_def)
  next
    case (Some n)
    let ?n = "n\<lparr>inputs := resolve_inputs P (graph s) (inputs n)\<rparr>"
    let ?s = "s\<lparr>graph := set_node (graph s) i ?n\<rparr>"
    consider (adv) "class_type n = ''KSamplerAdvanced''" | (ks) "class_type n = ''KSampler''"
      | (lora) "class_type n = ''LoraLoader''" | (ckpt) "class_type n = ''CheckpointLoaderSimple''"
      | (other) "class_type n \<noteq> ''KSamplerAdvanced''" "class_type n \<noteq> ''KSampler''"
          "class_type n \<noteq> ''LoraLoader''" "class_type n \<noteq> ''CheckpointLoaderSimple''"
      by blast
    then show ?thesis
    proof cases
      case adv
      with assms Some have "visit_KSamplerAdvanced ?n ?s = Inr s'"
        by (simp add: visit_def Let_def)
      from visit_KSamplerAdvanced_frame[OF this] adv Some show ?thesis
        by (simp add: carried_hash_def)
    next
      case ks
      with assms Some show ?thesis
        by (auto simp: visit_def Let_def carried_hash_def)
    next
      case lora
      with assms Some have "visit_LoraLoader P ?n ?s = Inr s'"
        by (simp add: visit_def Let_def)
      from visit_LoraLoader_frame[OF this] lora Some show ?thesis
        by (simp add: carried_hash_def)
    next
      case ckpt
      with assms Some have "visit_CheckpointLoaderSimple ?n ?s = Inr s'"
        by (simp add: visit_def Let_def)
      from visit_CheckpointLoaderSimple_hash[OF this] ckpt Some show ?thesis
        by (auto simp: carried_hash_def split: option.splits)
    next
      case other
      with assms Some show ?thesis
        by (auto simp: visit_def Let_def carried_hash_def split: if_splits)
    qed
  qed
  show "carried_hash (graph s') j = carried_hash (graph s) j"
  proof (cases "deref (graph s) i")
    case None
    with assms show ?thesis by (simp add: visit_def)
  next
    case (Some n)
    let ?n = "n\<lparr>inputs := resolve_inputs P (graph s) (inputs n)\<rparr>"
    have "graph s' = set_node (graph s) i ?n"
      using assms Some
      by (auto simp: visit_def Let_def split: if_splits
          dest: visit_KSamplerAdvanced_frame visit_LoraLoader_frame visit_CheckpointLoaderSimple_hash)
    then show ?thesis
      using Some by (simp add: carried_hash_set_node)
  qed
qed

lemma or_undefined_not_empty: "or_undefined h \<noteq> Some []"
  by (cases h) (auto simp: or_undefined_def)

lemma carried_hash_not_empty: "carried_hash g i \<noteq> Some []"
  by (auto simp: carried_hash_def or_undefined_not_empty split: option.splits)

lemma first_model_hash_cong:
  "(\<And>j. carried_hash g' j = carried_hash g j) \<Longrightarrow> first_model_hash g' ids = first_model_hash g ids"
  by (induction ids) (auto split: option.splits)

lemma sweep_model_hash:
  "sweep_nodes P ids s = Inr s' \<Longrightarrow> map_of (hashes s) ''model'' \<noteq> Some [] \<Longrightarrow>
   map_of (hashes s') ''model'' =
     (case map_of (hashes s) ''model'' of
        Some h \<Rightarrow> Some h
      | None \<Rightarrow> first_model_hash (graph s) ids)"
proof (induction ids arbitrary: s)
  case Nil
  then show ?case by (auto split: option.splits)
next
  case (Cons i ids)
  from Cons.prems(1) obtain s1 where v: "visit P i s = Inr s1" and r: "sweep_nodes P ids s1 = Inr s'"
    by (auto split: sum.splits)
  note h1 = visit_model_hash(1)[OF v] and g1 = visit_model_hash(2)[OF v]
  have ne: "map_of (hashes s1) ''model'' \<noteq> Some []"
    using h1 Cons.prems(2) carried_hash_not_empty[of "graph s" i]
    by (auto split: if_splits option.splits)
  have fm: "first_model_hash (graph s1) ids = first_model_hash (graph s) ids"
    by (rule first_model_hash_cong) (rule g1)
  show ?case
    using Cons.IH[OF r ne] h1 Cons.prems(2) fm
    by (cases "map_of (hashes s) ''model''"; cases "carried_hash (graph s) i") auto
qed


section \<open>Properties of the processor\<close>

lemma get_class_type_error: "get_class_type g v = Inl err \<Longrightarrow> err = TypeError"
  by (cases v) (auto split: option.splits)

lemma find_EmptyLatentImage_result:
  "find_EmptyLatentImage g xs = Inr r \<Longrightarrow> r = find (qualifies g) xs"
  by (induction xs) (auto simp: qualifies_def split: sum.splits if_splits)

lemma find_EmptyLatentImage_total:
  "list_all (has_latent_image g) xs \<Longrightarrow> find_EmptyLatentImage g xs = Inr (find (qualifies g) xs)"
proof (induction xs)
  case Nil
  then show ?case by simp
next
  case (Cons x xs)
  then obtain ct where "get_class_type g (get_prop x ''latent_image'') = Inr ct"
    by (cases "get_class_type g (get_prop x ''latent_image'')")
      (auto simp: has_latent_image_def dest: get_class_type_error)
  with Cons show ?case by (simp add: qualifies_def)
qed

lemma initialSamplerNode_result:
  "initialSamplerNode g xs = Inr r \<Longrightarrow> r = canonical_spec g xs"
  by (auto simp: initialSamplerNode_def canonical_spec_def
      split: sum.splits option.splits dest: find_EmptyLatentImage_result)

lemma initialSamplerNode_total:
  "list_all (has_latent_image g) xs \<Longrightarrow> initialSamplerNode g xs = Inr (canonical_spec g xs)"
  by (simp add: initialSamplerNode_def canonical_spec_def find_EmptyLatentImage_total
      split: option.splits)

lemma initialSamplerNode_second:
  "has_latent_image g x1 \<Longrightarrow> \<not> qualifies g x1 \<Longrightarrow> qualifies g x2 \<Longrightarrow>
   initialSamplerNode g [x1, x2] = Inr (Some x2)"
  by (cases "get_class_type g (get_prop x1 ''latent_image'')")
    (auto simp: initialSamplerNode_def qualifies_def has_latent_image_def
      dest: get_class_type_error)

lemma initialSamplerNode_empty: "initialSamplerNode g [] = Inr None"
  by (simp add: initialSamplerNode_def)

lemma a1111Compatability_keeps:
  "width (a1111Compatability P m) = width m"
  "height (a1111Compatability P m) = height m"
  "comfy (a1111Compatability P m) = comfy m"
  "hashes' (a1111Compatability P m) = hashes' m"
  "seed (a1111Compatability P m) = seed m"
  "steps (a1111Compatability P m) = steps m"
  "cfgScale (a1111Compatability P m) = cfgScale m"
  "scheduler (a1111Compatability P m) = scheduler m"
  "denoise (a1111Compatability P m) = denoise m"
  "negativePrompt (a1111Compatability P m) = negativePrompt m"
  by (simp_all add: a1111Compatability_def Let_def split: list.splits)

lemma build_metadata_fields:
  assumes "build_metadata P s node w v m = Inr meta"
  shows "inputs_prop (graph s) (get_prop node ''latent_image'') ''width'' = Inr (width meta)"
    and "inputs_prop (graph s) (get_prop node ''latent_image'') ''height'' = Inr (height meta)"
    and "seed meta = get_prop node ''seed''"
    and "steps meta = get_prop node ''steps''"
    and "cfgScale meta = get_prop node ''cfg''"
    and "scheduler meta = get_prop node ''scheduler''"
    and "denoise meta = get_prop node ''denoise''"
    and "hashes' meta = hashes s"
    and "\<exists>pj. snapshot_prompt (graph s) = Inr pj \<and>
           comfy meta = ComfyText (JSON_stringify P (JObj [(''prompt'', pj), (''workflow'', w)]))"
  using assms
  by (auto simp: build_metadata_def Let_def a1111Compatability_keeps
      split: sum.splits option.splits if_splits)

lemma parse_unfold:
  assumes "exif_prompt e = Some text" "JSON_parse_prompt P (cleanBadJson text) = Some g"
    "sweep_nodes P (map fst g) (initial g) = Inr s"
  shows "parse P e =
     (case initialSamplerNode (graph s) (samplerNodes s) of
        Inl err \<Rightarrow> Inl err
      | Inr chosen \<Rightarrow>
     (case (case exif_workflow e of None \<Rightarrow> None | Some w \<Rightarrow> JSON_parse P w) of
        None \<Rightarrow> Inl SyntaxError
      | Some workflow \<Rightarrow>
     (case scan_workflow P workflow of
        Inl err \<Rightarrow> Inl err
      | Inr (vIds, mIds) \<Rightarrow>
     (case chosen of
        None \<Rightarrow> Inl TypeError
      | Some node \<Rightarrow> build_metadata P s node workflow vIds mIds))))"
  using assms by (simp add: parse_def)

lemma parse_Inr:
  assumes "parse P e = Inr meta"
  obtains ptext g s node wt w v m where
    "exif_prompt e = Some ptext" "JSON_parse_prompt P (cleanBadJson ptext) = Some g"
    "sweep_nodes P (map fst g) (initial g) = Inr s"
    "initialSamplerNode (graph s) (samplerNodes s) = Inr (Some node)"
    "exif_workflow e = Some wt" "JSON_parse P wt = Some w"
    "scan_workflow P w = Inr (v, m)"
    "build_metadata P s node w v m = Inr meta"
  using assms
  by (auto simp: parse_def split: option.splits sum.splits prod.splits)


lemma decode_two_samplers:
  "JSON_parse_prompt example_platform (cleanBadJson two_samplers_text) = Some two_samplers_prompt"
  by code_simp

lemma sweep_two_samplers:
  "sweep_nodes example_platform (map fst two_samplers_prompt) (initial two_samplers_prompt)
     = Inr two_samplers_swept"
  by code_simp

lemma decode_workflow: "JSON_parse example_platform workflow_text = Some workflow_doc"
  by code_simp

lemma parse_two_samplers_returns: "\<not> isl (parse example_platform two_samplers_exif)"
  by code_simp

lemma Inr_projr: "\<not> isl x \<Longrightarrow> x = Inr (projr x)"
  by (cases x) auto

text \<open>
  Claim C2 (canonical sampler selection). Whenever the selection returns, it returns what the
  specification describes (\<open>canonical_spec\<close>): the first sampler, in the order of the list,
  whose \<^verbatim>\<open>latent_image\<close> has the type tag \<^verbatim>\<open>EmptyLatentImage\<close>, and the first sampler when
  none has. It does return when every sampler has a \<^verbatim>\<open>latent_image\<close>, as the type
  \<^verbatim>\<open>SamplerNode\<close> declares. Of two samplers of which only the second qualifies, the second is
  selected. The record \<^verbatim>\<open>parse\<close> returns takes its sampler settings from that node.
\<close>

theorem canonical_sampler_selection:
  "(initialSamplerNode g xs = Inr r \<longrightarrow> r = canonical_spec g xs)
   \<and> (list_all (has_latent_image g) xs \<longrightarrow> initialSamplerNode g xs = Inr (canonical_spec g xs))
   \<and> (has_latent_image g x1 \<and> \<not> qualifies g x1 \<and> qualifies g x2 \<longrightarrow>
        initialSamplerNode g [x1, x2] = Inr (Some x2))
   \<and> (exif_prompt e = Some ptext \<and> JSON_parse_prompt P (cleanBadJson ptext) = Some g0
       \<and> sweep_nodes P (map fst g0) (initial g0) = Inr s \<and> parse P e = Inr meta \<longrightarrow>
        (\<exists>node. canonical_spec (graph s) (samplerNodes s) = Some node
           \<and> seed meta = get_prop node ''seed'' \<and> steps meta = get_prop node ''steps''
           \<and> cfgScale meta = get_prop node ''cfg'' \<and> scheduler meta = get_prop node ''scheduler''
           \<and> denoise meta = get_prop node ''denoise''))"
proof -
  have "\<exists>node. canonical_spec (graph s) (samplerNodes s) = Some node
           \<and> seed meta = get_prop node ''seed'' \<and> steps meta = get_prop node ''steps''
           \<and> cfgScale meta = get_prop node ''cfg'' \<and> scheduler meta = get_prop node ''scheduler''
           \<and> denoise meta = get_prop node ''denoise''"
    if a: "exif_prompt e = Some ptext" "JSON_parse_prompt P (cleanBadJson ptext) = Some g0"
      "sweep_nodes P (map fst g0) (initial g0) = Inr s" "parse P e = Inr meta"
  proof -
    from a(4) obtain node w v m where
      i: "initialSamplerNode (graph s) (samplerNodes s) = Inr (Some node)"
      and b: "build_metadata P s node w v m = Inr meta"
      unfolding parse_unfold[OF a(1,2,3)]
      by (auto split: sum.splits option.splits prod.splits)
    from initialSamplerNode_result[OF i]
    have "canonical_spec (graph s) (samplerNodes s) = Some node" by simp
    with build_metadata_fields(3-7)[OF b] show ?thesis by blast
  qed
  then show ?thesis
    using initialSamplerNode_result[of g xs r] initialSamplerNode_total[of g xs]
      initialSamplerNode_second[of g x1 x2]
    by blast
qed

theorem canonical_sampler_selection_witness:
  "has_latent_image (graph two_samplers_swept) sampler_first
   \<and> \<not> qualifies (graph two_samplers_swept) sampler_first
   \<and> qualifies (graph two_samplers_swept) sampler_second
   \<and> initialSamplerNode (graph two_samplers_swept) [sampler_first, sampler_second]
       = Inr (Some sampler_second)
   \<and> canonical_spec (graph two_samplers_swept) (samplerNodes two_samplers_swept) = Some sampler_second
   \<and> seed (projr (parse example_platform two_samplers_exif)) = VNum 42"
proof -
  note inst = canonical_sampler_selection [where g = "graph two_samplers_swept"
      and ?x1.0 = sampler_first and ?x2.0 = sampler_second
      and xs = "[sampler_first, sampler_second]"
      and e = two_samplers_exif and ptext = two_samplers_text and P = example_platform
      and ?g0.0 = two_samplers_prompt and s = two_samplers_swept
      and meta = "projr (parse example_platform two_samplers_exif)"]
  have q: "has_latent_image (graph two_samplers_swept) sampler_first"
    "\<not> qualifies (graph two_samplers_swept) sampler_first"
    "qualifies (graph two_samplers_swept) sampler_second"
    by (simp_all add: two_samplers_swept_def sampler_first_def sampler_second_def
        has_latent_image_def qualifies_def get_prop_def deref_def)
  have c: "canonical_spec (graph two_samplers_swept) (samplerNodes two_samplers_swept)
      = Some sampler_second"
    by (simp add: two_samplers_swept_def sampler_first_def sampler_second_def
        qualifies_def get_prop_def deref_def canonical_spec_def)
  have p: "exif_prompt two_samplers_exif = Some two_samplers_text"
    by (simp add: two_samplers_exif_def)
  from inst q have i: "initialSamplerNode (graph two_samplers_swept) [sampler_first, sampler_second]
       = Inr (Some sampler_second)"
    by blast
  from inst p decode_two_samplers sweep_two_samplers Inr_projr[OF parse_two_samplers_returns]
  obtain node where "canonical_spec (graph two_samplers_swept) (samplerNodes two_samplers_swept) = Some node"
    "seed (projr (parse example_platform two_samplers_exif)) = get_prop node ''seed''"
    by blast
  with c have "seed (projr (parse example_platform two_samplers_exif)) = VNum 42"
    by (simp add: sampler_second_def get_prop_def)
  with q c i show ?thesis by blast
qed
















lemma scan_air_error: "scan_air P air acc = Inl err \<Longrightarrow> err = TypeError"
  by (cases "(P, air, acc)" rule: scan_air.cases) (auto simp: Let_def split: if_splits)

lemma scan_airs_error: "scan_airs P airs acc = Inl err \<Longrightarrow> err = TypeError"
  by (induction airs arbitrary: acc) (auto split: sum.splits dest: scan_air_error)

lemma iterate_error: "iterate v = Inl err \<Longrightarrow> err = TypeError"
  by (cases v) auto

lemma scan_keys_error: "scan_keys P extra keys acc = Inl err \<Longrightarrow> err = TypeError"
  by (induction keys arbitrary: acc)
    (auto split: option.splits if_splits sum.splits dest: iterate_error scan_airs_error)

lemma scan_workflow_error: "scan_workflow P w = Inl err \<Longrightarrow> err = TypeError"
  by (auto simp: scan_workflow_def split: option.splits if_splits dest: scan_keys_error)

text \<open>
  Claim C3, amended (empty sampler list). When the sweep ends with an empty sampler list,
  \<^verbatim>\<open>parse\<close> returns no record: it throws. There is no error of its own for this case. The
  canonical sampler is \<^verbatim>\<open>undefined\<close> then, and its first read,
  \<^verbatim>\<open>initialSamplerNode.positive\<close>, throws a \<^verbatim>\<open>TypeError\<close>, unless the workflow text does not
  decode, which throws a \<^verbatim>\<open>SyntaxError\<close>, or its scan throws, a \<^verbatim>\<open>TypeError\<close>: both happen
  before that read.
\<close>

theorem empty_sampler_list_fails:
  assumes "exif_prompt e = Some ptext" "JSON_parse_prompt P (cleanBadJson ptext) = Some g0"
    "sweep_nodes P (map fst g0) (initial g0) = Inr s" "samplerNodes s = []"
  shows "parse P e =
           (case (case exif_workflow e of None \<Rightarrow> None | Some w \<Rightarrow> JSON_parse P w) of
              None \<Rightarrow> Inl SyntaxError
            | Some w \<Rightarrow> (case scan_workflow P w of Inl err \<Rightarrow> Inl err | Inr r \<Rightarrow> Inl TypeError))
    \<and> (parse P e = Inl TypeError \<or> parse P e = Inl SyntaxError)
    \<and> parse P e \<noteq> Inr meta"
proof -
  have 1: "parse P e =
           (case (case exif_workflow e of None \<Rightarrow> None | Some w \<Rightarrow> JSON_parse P w) of
              None \<Rightarrow> Inl SyntaxError
            | Some w \<Rightarrow> (case scan_workflow P w of Inl err \<Rightarrow> Inl err | Inr r \<Rightarrow> Inl TypeError))"
    unfolding parse_unfold[OF assms(1,2,3)] assms(4) initialSamplerNode_empty
    by (auto split: option.splits sum.splits)
  then have 2: "parse P e = Inl TypeError \<or> parse P e = Inl SyntaxError"
    by (auto split: option.splits sum.splits dest: scan_workflow_error)
  with 1 show ?thesis by auto
qed

lemma decode_no_sampler:
  "JSON_parse_prompt example_platform (cleanBadJson no_sampler_text) = Some no_sampler_prompt"
  by code_simp

lemma sweep_no_sampler:
  "\<not> isl (sweep_nodes example_platform (map fst no_sampler_prompt) (initial no_sampler_prompt))"
  "samplerNodes (projr (sweep_nodes example_platform (map fst no_sampler_prompt)
      (initial no_sampler_prompt))) = []"
  by code_simp+

theorem empty_sampler_list_fails_witness:
  "samplerNodes (projr (sweep_nodes example_platform (map fst no_sampler_prompt)
      (initial no_sampler_prompt))) = []
   \<and> parse example_platform no_sampler_exif = Inl TypeError"
proof -
  have p: "exif_prompt no_sampler_exif = Some no_sampler_text"
    by (simp add: no_sampler_exif_def)
  have w: "(case exif_workflow no_sampler_exif of None \<Rightarrow> None
            | Some w \<Rightarrow> JSON_parse example_platform w) = Some (JObj [])"
    by code_simp
  have s: "scan_workflow example_platform (JObj []) = Inr ([], [])"
    by code_simp
  from empty_sampler_list_fails [OF p decode_no_sampler Inr_projr[OF sweep_no_sampler(1)]
      sweep_no_sampler(2)]
  have "parse example_platform no_sampler_exif = Inl TypeError"
    unfolding w by (simp add: s)
  with sweep_no_sampler(2) show ?thesis by blast
qed

text \<open>
  The claim as stated fails: no error says that a sampler is missing. For a prompt without
  a sampler and a workflow text that does not decode, the error \<^verbatim>\<open>parse\<close> throws is the
  \<^verbatim>\<open>SyntaxError\<close> of the decoder.
\<close>

theorem no_sampler_syntax_error_counterexample:
  "JSON_parse_prompt example_platform (cleanBadJson no_sampler_text) = Some no_sampler_prompt
   \<and> samplerNodes (projr (sweep_nodes example_platform (map fst no_sampler_prompt)
        (initial no_sampler_prompt))) = []
   \<and> exif_prompt bad_workflow_exif = Some no_sampler_text
   \<and> parse example_platform bad_workflow_exif = Inl SyntaxError
   \<and> parse example_platform bad_workflow_exif \<noteq> Inl TypeError"
  by code_simp

lemma encode_of_payload:
  assumes "comfy meta = ComfyText t" "fromJson P t = Some (JObj [(''prompt'', pj), (''workflow'', w)])"
  shows "encode P meta = (if json_truthy w then JSON_stringify P w else [])"
  using assms by (simp add: encode_def)

text \<open>
  Claim C1, amended (round trip). Let \<^verbatim>\<open>parse\<close> return a record for metadata whose workflow
  text decodes to \<open>w\<close>, on a platform where \<open>fromJson\<close> decodes the payload that
  \<^verbatim>\<open>JSON.stringify\<close> wrote and \<^verbatim>\<open>JSON.parse\<close> decodes the written \<open>w\<close>. When \<open>w\<close> is truthy,
  \<^verbatim>\<open>encode\<close> returns the written \<open>w\<close>, which decodes to \<open>w\<close>. When \<open>w\<close> is falsy
  (\<^verbatim>\<open>null\<close>, \<^verbatim>\<open>false\<close>, \<^verbatim>\<open>0\<close> or the empty string), \<^verbatim>\<open>encode\<close> returns the empty string.
\<close>

theorem encode_round_trip:
  assumes "exif_prompt e = Some ptext" "JSON_parse_prompt P (cleanBadJson ptext) = Some g0"
    "sweep_nodes P (map fst g0) (initial g0) = Inr s" "snapshot_prompt (graph s) = Inr pj"
    "exif_workflow e = Some wt" "JSON_parse P wt = Some w"
    "parse P e = Inr meta"
    "fromJson P (JSON_stringify P (JObj [(''prompt'', pj), (''workflow'', w)]))
       = Some (JObj [(''prompt'', pj), (''workflow'', w)])"
    "JSON_parse P (JSON_stringify P w) = Some w"
  shows "(json_truthy w \<longrightarrow>
            encode P meta = JSON_stringify P w \<and> JSON_parse P (encode P meta) = Some w)
    \<and> (\<not> json_truthy w \<longrightarrow> encode P meta = [])"
proof -
  from assms(7) obtain node v m where b: "build_metadata P s node w v m = Inr meta"
    unfolding parse_unfold[OF assms(1,2,3)] assms(5) option.case assms(6)
    by (auto split: sum.splits option.splits prod.splits)
  from build_metadata_fields(9)[OF b] assms(4)
  have "comfy meta = ComfyText (JSON_stringify P (JObj [(''prompt'', pj), (''workflow'', w)]))"
    by auto
  from encode_of_payload[OF this assms(8)] assms(9) show ?thesis by simp
qed

lemma snapshot_two_samplers: "\<not> isl (snapshot_prompt (graph two_samplers_swept))"
  by code_simp

lemma payload_two_samplers:
  "fromJson example_platform (JSON_stringify example_platform
      (JObj [(''prompt'', projr (snapshot_prompt (graph two_samplers_swept))),
             (''workflow'', workflow_doc)]))
   = Some (JObj [(''prompt'', projr (snapshot_prompt (graph two_samplers_swept))),
                 (''workflow'', workflow_doc)])"
  by code_simp

lemma workflow_two_samplers:
  "JSON_parse example_platform (JSON_stringify example_platform workflow_doc) = Some workflow_doc"
  "JSON_stringify example_platform workflow_doc = workflow_text"
  "json_truthy workflow_doc"
  by code_simp+

theorem encode_round_trip_witness:
  "exif_workflow two_samplers_exif = Some workflow_text
   \<and> JSON_parse example_platform workflow_text = Some workflow_doc
   \<and> json_truthy workflow_doc
   \<and> encode example_platform (projr (parse example_platform two_samplers_exif)) = workflow_text
   \<and> JSON_parse example_platform
        (encode example_platform (projr (parse example_platform two_samplers_exif)))
       = Some workflow_doc"
proof -
  have p: "exif_prompt two_samplers_exif = Some two_samplers_text"
    and w: "exif_workflow two_samplers_exif = Some workflow_text"
    by (simp_all add: two_samplers_exif_def)
  from encode_round_trip [OF p decode_two_samplers sweep_two_samplers
      Inr_projr[OF snapshot_two_samplers] w decode_workflow
      Inr_projr[OF parse_two_samplers_returns] payload_two_samplers workflow_two_samplers(1)]
    workflow_two_samplers(2,3) w decode_workflow
  show ?thesis by metis
qed

text \<open>
  The claim as stated fails for a workflow document that is \<^verbatim>\<open>null\<close>: \<^verbatim>\<open>parse\<close> returns a
  record, \<^verbatim>\<open>encode\<close> returns the empty string for it, and the empty string does not decode
  to \<^verbatim>\<open>null\<close>.
\<close>

theorem encode_null_workflow_counterexample:
  "\<not> isl (parse example_platform null_workflow_exif)
   \<and> exif_workflow null_workflow_exif = Some ''null''
   \<and> JSON_parse example_platform ''null'' = Some JNull
   \<and> encode example_platform (projr (parse example_platform null_workflow_exif)) = []
   \<and> JSON_parse example_platform
        (encode example_platform (projr (parse example_platform null_workflow_exif)))
       \<noteq> Some JNull"
  by code_simp

text \<open>
  Claim C4 (model-hash precedence). A sweep that starts with no hashes and runs to its end
  leaves under the key \<^verbatim>\<open>model\<close> the hash of the first \<^verbatim>\<open>CheckpointLoaderSimple\<close> node, in
  the order of the sweep, that carries one (a \<^verbatim>\<open>ckpt_hash\<close> that is not empty), and nothing
  when no node carries one. Once the entry is there, no visit changes it; while it is not
  there, the visit of a node that carries a hash writes that hash. The record that \<^verbatim>\<open>parse\<close>
  returns holds the entry of the sweep.
\<close>

theorem model_hash_first_wins:
  "(sweep_nodes P ids (initial g) = Inr s' \<longrightarrow>
      map_of (hashes s') ''model'' = first_model_hash g ids)
   \<and> (visit P i s = Inr s1 \<and> truthy_str (map_of (hashes s) ''model'') \<longrightarrow>
      map_of (hashes s1) ''model'' = map_of (hashes s) ''model'')
   \<and> (visit P i s = Inr s1 \<and> \<not> truthy_str (map_of (hashes s) ''model'')
       \<and> carried_hash (graph s) i = Some h \<longrightarrow>
      map_of (hashes s1) ''model'' = Some h)
   \<and> (exif_prompt e = Some ptext \<and> JSON_parse_prompt P (cleanBadJson ptext) = Some g0
       \<and> parse P e = Inr meta \<longrightarrow>
      map_of (hashes' meta) ''model'' = first_model_hash g0 (map fst g0))"
proof -
  have sweep: "map_of (hashes s') ''model'' = first_model_hash g ids"
    if "sweep_nodes P ids (initial g) = Inr s'" for ids g s'
    using sweep_model_hash[OF that] by (simp add: initial_def)
  have "map_of (hashes s1) ''model'' = map_of (hashes s) ''model''"
    if "visit P i s = Inr s1" "truthy_str (map_of (hashes s) ''model'')"
    using visit_model_hash(1)[OF that(1)] that(2) by simp
  moreover have "map_of (hashes s1) ''model'' = Some h"
    if "visit P i s = Inr s1" "\<not> truthy_str (map_of (hashes s) ''model'')"
      "carried_hash (graph s) i = Some h"
    using visit_model_hash(1)[OF that(1)] that(2,3) by simp
  moreover have "map_of (hashes' meta) ''model'' = first_model_hash g0 (map fst g0)"
    if a: "exif_prompt e = Some ptext" "JSON_parse_prompt P (cleanBadJson ptext) = Some g0"
      "parse P e = Inr meta"
  proof -
    from a(3) obtain t g1 s2 node w v m where
      c: "exif_prompt e = Some t" "JSON_parse_prompt P (cleanBadJson t) = Some g1"
        "sweep_nodes P (map fst g1) (initial g1) = Inr s2"
        "build_metadata P s2 node w v m = Inr meta"
      by (rule parse_Inr)
    from c(1,2) a(1,2) have "g1 = g0" by simp
    with sweep[OF c(3)] build_metadata_fields(8)[OF c(4)] show ?thesis by simp
  qed
  ultimately show ?thesis using sweep[of ids g s'] by blast
qed

theorem model_hash_first_wins_witness:
  "sweep_nodes example_platform [''4'', ''8''] (initial ckpt_prompt) =
     Inr ((initial ckpt_prompt)
           \<lparr>models := [''sd'', ''refiner''],
            additionalResources :=
              [\<lparr>name = ''sd'', type = ''model'', weight = VUndefined,
                weightClip = VUndefined, hash = Some ''abc123''\<rparr>,
               \<lparr>name = ''refiner'', type = ''model'', weight = VUndefined,
                weightClip = VUndefined, hash = Some ''fff999''\<rparr>],
            hashes := [(''model'', ''abc123'')]\<rparr>)
   \<and> carried_hash ckpt_prompt ''4'' = Some ''abc123''
   \<and> carried_hash ckpt_prompt ''8'' = Some ''fff999''
   \<and> first_model_hash ckpt_prompt [''4'', ''8''] = Some ''abc123''
   \<and> map_of (hashes' (projr (parse example_platform two_samplers_exif))) ''model''
       = first_model_hash two_samplers_prompt (map fst two_samplers_prompt)"
proof -
  let ?s' = "(initial ckpt_prompt)
           \<lparr>models := [''sd'', ''refiner''],
            additionalResources :=
              [\<lparr>name = ''sd'', type = ''model'', weight = VUndefined,
                weightClip = VUndefined, hash = Some ''abc123''\<rparr>,
               \<lparr>name = ''refiner'', type = ''model'', weight = VUndefined,
                weightClip = VUndefined, hash = Some ''fff999''\<rparr>],
            hashes := [(''model'', ''abc123'')]\<rparr>"
  note inst = model_hash_first_wins [where P = example_platform and ids = "[''4'', ''8'']"
      and g = ckpt_prompt and s' = ?s' and e = two_samplers_exif and ptext = two_samplers_text
      and ?g0.0 = two_samplers_prompt
      and meta = "projr (parse example_platform two_samplers_exif)"]
  have sw: "sweep_nodes example_platform [''4'', ''8''] (initial ckpt_prompt) = Inr ?s'"
    by (simp add: ckpt_prompt_def ckpt_first_def ckpt_second_def visit_def initial_def deref_def
        Let_def resolve_inputs_def visit_CheckpointLoaderSimple_def get_prop_def or_undefined_def
        modelFileName_def set_node_def bsl_def)
  have ch: "carried_hash ckpt_prompt ''4'' = Some ''abc123''"
    "carried_hash ckpt_prompt ''8'' = Some ''fff999''"
    by (simp_all add: ckpt_prompt_def ckpt_first_def ckpt_second_def deref_def
        or_undefined_def carried_hash_def)
  from inst sw have "map_of (hashes ?s') ''model'' = first_model_hash ckpt_prompt [''4'', ''8'']"
    by blast
  then have fm: "first_model_hash ckpt_prompt [''4'', ''8''] = Some ''abc123''"
    by simp
  have p: "exif_prompt two_samplers_exif = Some two_samplers_text"
    by (simp add: two_samplers_exif_def)
  from inst p decode_two_samplers Inr_projr[OF parse_two_samplers_returns]
  have "map_of (hashes' (projr (parse example_platform two_samplers_exif))) ''model''
       = first_model_hash two_samplers_prompt (map fst two_samplers_prompt)"
    by blast
  with sw ch fm show ?thesis by blast
qed

end
